theory Spec2Isabelle
  imports Main
begin

section \<open>Data model of the batch size finder\<close>

text \<open>
  The development embeds \<^verbatim>\<open>src/pytorch_lightning/callbacks/batch_size_finder.py\<close>.
  Python integers are \<open>int\<close>, results of \<^verbatim>\<open>len\<close> are \<open>nat\<close>, exceptions are values
  of \<open>exn\<close>, and every method returns the state it leaves behind, also when it raises.
  The factor of \<^verbatim>\<open>_adjust_batch_size\<close> is only ever \<^verbatim>\<open>1.0\<close> or \<^verbatim>\<open>2.0\<close>; it is an
  \<open>int\<close> here, so \<^verbatim>\<open>int(batch_size * factor)\<close> is the exact product (floating point
  rounding of sizes beyond 2^53 is outside the model).
\<close>

datatype trainer_fn = FITTING | VALIDATING | TESTING | PREDICTING

datatype exn =
    MisconfigurationException string
  | RuntimeError string
  | TunerExitException
  | KeyError string
  | IndexError
  | AttributeError
  | FileNotFoundError

datatype pl_logger = DummyLogger | UserLogger string

text \<open>
  What the callback reports: the two warnings of \<^verbatim>\<open>scale_batch_size\<close>, the line
  \<^verbatim>\<open>Batch size {batch_size} {desc}, trying batch size {new_size}\<close> and the final
  \<^verbatim>\<open>New batch size: {new_size}\<close>.
\<close>

datatype warning = Skipping_fast_dev_run | Mutually_exclusive_fields

datatype message =
    Warn warning
  | Info int string int
  | Print int

text \<open>
  A data loader as the finder sees it: \<^verbatim>\<open>has_len_all_ranks(dataloader, ...)\<close>,
  \<^verbatim>\<open>len(dataloader)\<close> (the number of batches) and \<^verbatim>\<open>len(dataloader.dataset)\<close>.
\<close>

record dataloader =
  has_len_all_ranks :: bool
  loader_len :: nat
  dataset_len :: nat

text \<open>
  A loop carries the progress that \<^verbatim>\<open>state_dict\<close> and \<^verbatim>\<open>load_state_dict\<close> exchange,
  as an opaque list of counters, and its \<^verbatim>\<open>verbose\<close> attribute when it has one
  (\<open>None\<close>: \<^verbatim>\<open>hasattr(loop, "verbose")\<close> is false). The fit loop adds its counters.
\<close>

type_synonym blob = "int list"

record loop =
  progress :: blob
  verbose :: "bool option"

record fit_loop = loop +
  global_step :: int
  current_epoch :: int
  max_steps :: int

record trainer =
  fast_dev_run :: bool
  state_fn :: trainer_fn
  is_global_zero :: bool
  train_source_is_module :: bool
  logger :: "pl_logger option"
  callbacks :: "string list"
  limit_val_batches :: int
  limit_test_batches :: int
  limit_predict_batches :: int
  fit_loop :: fit_loop
  validate_loop :: loop
  test_loop :: loop
  predict_loop :: loop
  train_dataloader :: dataloader
  val_dataloaders :: "dataloader list"
  test_dataloaders :: "dataloader list"
  predict_dataloaders :: "dataloader list"
  progress_bar_enabled :: "bool option"

text \<open>
  The module holds the hyperparameter named by \<^verbatim>\<open>batch_arg_name\<close>, directly
  (\<open>attr\<close>) or under \<^verbatim>\<open>hparams\<close>.
\<close>

record pl_module =
  attr :: "int option"
  hparams :: "int option"

text \<open>The dictionary \<^verbatim>\<open>self._dumped_params\<close>: a field is \<open>None\<close> when the key is absent.\<close>

record dumped_params =
  d_logger :: "pl_logger option option"
  d_callbacks :: "string list option"
  d_global_step :: "int option"
  d_max_steps :: "int option"
  d_limit_val_batches :: "int option"
  d_limit_eval_batches :: "int option"
  d_loop_state_dict :: "blob option"
  d_loop_verbose :: "bool option"

text \<open>The temporary checkpoint file: what \<^verbatim>\<open>save_checkpoint\<close> wrote at \<^verbatim>\<open>save_path\<close>.\<close>

record checkpoint =
  ckpt_global_step :: int
  ckpt_current_epoch :: int

text \<open>The callback object itself (\<^verbatim>\<open>self\<close>).\<close>

datatype search_mode = Power | Binsearch

record finder =
  mode :: search_mode
  steps_per_trial :: int
  init_val :: int
  max_trials :: int
  optimal_batch_size :: int
  early_exit :: bool
  dumped :: dumped_params

text \<open>
  The whole state one call works on. \<open>trials\<close> counts the calls of \<^verbatim>\<open>loop.run()\<close>
  and \<open>successes\<close> those that returned; \<open>messages\<close> collects what was warned,
  logged and printed; \<open>tmp_file\<close> is the file at \<^verbatim>\<open>save_path\<close>.
\<close>

record state =
  trainer :: trainer
  pl_module :: pl_module
  self :: finder
  tmp_file :: "checkpoint option"
  trials :: nat
  successes :: nat
  messages :: "message list"

text \<open>
  The collaborators that are not part of this file are parameters: the classifier
  \<^verbatim>\<open>is_oom_error\<close>, the outcome of the \<open>n\<close>-th \<^verbatim>\<open>loop.run()\<close> at a batch size
  (\<open>None\<close>: it returned; \<open>Some m\<close>: it raised \<^verbatim>\<open>RuntimeError(m)\<close>), what a run
  does to its loop, the data loaders derived for a module, and the checkpoint
  connector.
\<close>

record env =
  is_oom_error :: "string \<Rightarrow> bool"
  loop_run :: "nat \<Rightarrow> int option \<Rightarrow> string option"
  fit_loop_ran :: "nat \<Rightarrow> fit_loop \<Rightarrow> fit_loop"
  loop_ran :: "nat \<Rightarrow> loop \<Rightarrow> loop"
  derive_train :: "pl_module \<Rightarrow> dataloader"
  derive_val :: "pl_module \<Rightarrow> dataloader list"
  derive_test :: "pl_module \<Rightarrow> dataloader list"
  derive_predict :: "pl_module \<Rightarrow> dataloader list"
  dump_checkpoint :: "trainer \<Rightarrow> checkpoint"
  restore_checkpoint :: "checkpoint \<Rightarrow> trainer \<Rightarrow> trainer"

section \<open>Attribute access\<close>

text \<open>
  Modelled from the spec: \<^verbatim>\<open>lightning_hasattr\<close>, \<^verbatim>\<open>lightning_getattr\<close> and
  \<^verbatim>\<open>lightning_setattr\<close> of \<^verbatim>\<open>pytorch_lightning.utilities.parsing\<close> are not under src/.
  The attribute may be declared on the module or under its hyperparameters; the
  lookup checks both and the direct one takes precedence; a write reaches every
  place that declares it and fails when none does.
\<close>

definition lightning_hasattr :: "pl_module \<Rightarrow> bool" where
  "lightning_hasattr m = (attr m \<noteq> None \<or> hparams m \<noteq> None)"

definition lightning_getattr :: "pl_module \<Rightarrow> int option" where
  "lightning_getattr m = (case attr m of Some v \<Rightarrow> Some v | None \<Rightarrow> hparams m)"

definition lightning_setattr :: "pl_module \<Rightarrow> int \<Rightarrow> pl_module option" where
  "lightning_setattr m v =
     (if \<not> lightning_hasattr m then None
      else Some (m\<lparr>attr := (if attr m = None then None else Some v),
                    hparams := (if hparams m = None then None else Some v)\<rparr>))"

section \<open>The guard on a candidate and the adjustment\<close>

definition is_valid_batch_size :: "int \<Rightarrow> dataloader \<Rightarrow> bool" where
  "is_valid_batch_size batch_size dl =
     (\<not> has_len_all_ranks dl \<or> batch_size \<le> int (loader_len dl))"

text \<open>
  The two lines that \<^verbatim>\<open>_adjust_batch_size\<close> repeats for each run mode:
  \<^verbatim>\<open>if not self._is_valid_batch_size(new_size, dl, trainer): new_size = min(new_size, len(dl.dataset))\<close>.
\<close>

definition clamp_size :: "int \<Rightarrow> dataloader \<Rightarrow> int" where
  "clamp_size new_size dl =
     (if \<not> is_valid_batch_size new_size dl then min new_size (int (dataset_len dl))
      else new_size)"

text \<open>\<^verbatim>\<open>dataloaders[0]\<close> raises on an empty list.\<close>

definition first_loader :: "dataloader list \<Rightarrow> exn + dataloader" where
  "first_loader dls = (case dls of [] \<Rightarrow> Inl IndexError | dl # _ \<Rightarrow> Inr dl)"

definition active_loader :: "trainer \<Rightarrow> exn + dataloader" where
  "active_loader t =
     (case state_fn t of
        FITTING \<Rightarrow> Inr (train_dataloader t)
      | VALIDATING \<Rightarrow> first_loader (val_dataloaders t)
      | TESTING \<Rightarrow> first_loader (test_dataloaders t)
      | PREDICTING \<Rightarrow> first_loader (predict_dataloaders t))"

definition adjust_batch_size ::
  "state \<Rightarrow> int \<Rightarrow> int option \<Rightarrow> string option \<Rightarrow> (exn + (int \<times> bool)) \<times> state" where
  "adjust_batch_size s factor val desc =
     (case lightning_getattr (pl_module s) of
        None \<Rightarrow> (Inl AttributeError, s)
      | Some batch_size \<Rightarrow>
          let new_size = (case val of Some v \<Rightarrow> v | None \<Rightarrow> batch_size * factor);
              s1 = (case desc of
                      None \<Rightarrow> s
                    | Some d \<Rightarrow>
                        if d = [] then s
                        else s\<lparr>messages := messages s @ [Info batch_size d new_size]\<rparr>)
          in (case active_loader (trainer s1) of
                Inl e \<Rightarrow> (Inl e, s1)
              | Inr dl \<Rightarrow>
                  let new_size' = clamp_size new_size dl;
                      changed = (new_size' \<noteq> batch_size)
                  in (case lightning_setattr (pl_module s1) new_size' of
                        None \<Rightarrow> (Inl AttributeError, s1)
                      | Some m \<Rightarrow> (Inr (new_size', changed), s1\<lparr>pl_module := m\<rparr>))))"

section \<open>Running one trial\<close>

text \<open>\<^verbatim>\<open>loop.load_state_dict(...)\<close> and \<^verbatim>\<open>loop.run()\<close> on the loop of the active mode.\<close>

definition load_state_dict :: "blob \<Rightarrow> trainer \<Rightarrow> trainer" where
  "load_state_dict b t =
     (case state_fn t of
        FITTING \<Rightarrow> t\<lparr>fit_loop := (fit_loop t)\<lparr>progress := b\<rparr>\<rparr>
      | VALIDATING \<Rightarrow> t\<lparr>validate_loop := (validate_loop t)\<lparr>progress := b\<rparr>\<rparr>
      | TESTING \<Rightarrow> t\<lparr>test_loop := (test_loop t)\<lparr>progress := b\<rparr>\<rparr>
      | PREDICTING \<Rightarrow> t\<lparr>predict_loop := (predict_loop t)\<lparr>progress := b\<rparr>\<rparr>)"

definition run_active_loop :: "env \<Rightarrow> nat \<Rightarrow> trainer \<Rightarrow> trainer" where
  "run_active_loop env n t =
     (case state_fn t of
        FITTING \<Rightarrow> t\<lparr>fit_loop := fit_loop_ran env n (fit_loop t)\<rparr>
      | VALIDATING \<Rightarrow> t\<lparr>validate_loop := loop_ran env n (validate_loop t)\<rparr>
      | TESTING \<Rightarrow> t\<lparr>test_loop := loop_ran env n (test_loop t)\<rparr>
      | PREDICTING \<Rightarrow> t\<lparr>predict_loop := loop_ran env n (predict_loop t)\<rparr>)"

definition try_loop_run :: "env \<Rightarrow> state \<Rightarrow> exn option \<times> state" where
  "try_loop_run env s =
     (let t = trainer s; d = dumped (self s)
      in case (if state_fn t = FITTING
               then (case d_global_step d of
                       None \<Rightarrow> Inl (KeyError ''global_step'')
                     | Some g \<Rightarrow> Inr (t\<lparr>fit_loop := (fit_loop t)\<lparr>global_step := g\<rparr>\<rparr>))
               else Inr t) of
           Inl e \<Rightarrow> (Some e, s)
         | Inr t1 \<Rightarrow>
             (case d_loop_state_dict d of
                None \<Rightarrow> (Some (KeyError ''loop_state_dict''), s\<lparr>trainer := t1\<rparr>)
              | Some b \<Rightarrow>
                  let n = trials s;
                      s3 = s\<lparr>trainer := run_active_loop env n (load_state_dict b t1),
                              trials := Suc n\<rparr>
                  in (case loop_run env n (lightning_getattr (pl_module s)) of
                        None \<Rightarrow> (None, s3\<lparr>successes := Suc (successes s)\<rparr>)
                      | Some m \<Rightarrow> (Some (RuntimeError m), s3))))"

definition reset_dataloaders :: "env \<Rightarrow> state \<Rightarrow> state" where
  "reset_dataloaders env s =
     (let t = trainer s; m = pl_module s
      in s\<lparr>trainer :=
           (case state_fn t of
              FITTING \<Rightarrow> t\<lparr>train_dataloader := derive_train env m,
                            val_dataloaders := derive_val env m\<rparr>
            | VALIDATING \<Rightarrow> t\<lparr>val_dataloaders := derive_val env m\<rparr>
            | TESTING \<Rightarrow> t\<lparr>test_dataloaders := derive_test env m\<rparr>
            | PREDICTING \<Rightarrow> t\<lparr>predict_dataloaders := derive_predict env m\<rparr>)\<rparr>)"

section \<open>The two search strategies\<close>

text \<open>
  \<^verbatim>\<open>_run_power_scaling\<close>: the body of \<^verbatim>\<open>for _ in range(self.max_trials)\<close>, by
  recursion on the iterations that remain.
\<close>

fun power_loop :: "env \<Rightarrow> nat \<Rightarrow> state \<Rightarrow> int \<Rightarrow> (exn + int) \<times> state" where
  "power_loop env 0 s new_size = (Inr new_size, s)"
| "power_loop env (Suc n) s new_size =
     (case try_loop_run env s of
        (None, s1) \<Rightarrow>
          (case adjust_batch_size s1 2 None (Some ''succeeded'') of
             (Inl e, s2) \<Rightarrow> (Inl e, s2)
           | (Inr (new_size', changed), s2) \<Rightarrow>
               if changed then power_loop env n (reset_dataloaders env s2) new_size'
               else (Inr new_size', s2))
      | (Some e, s1) \<Rightarrow>
          (case e of
             RuntimeError m \<Rightarrow>
               if is_oom_error env m
               then (case adjust_batch_size s1 1 None None of
                       (Inl e', s2) \<Rightarrow> (Inl e', s2)
                     | (Inr (new_size', _), s2) \<Rightarrow> (Inr new_size', s2))
               else (Inl e, s1)
           | _ \<Rightarrow> (Inl e, s1)))"

definition run_power_scaling :: "env \<Rightarrow> state \<Rightarrow> int \<Rightarrow> (exn + int) \<times> state" where
  "run_power_scaling env s new_size = power_loop env (nat (max_trials (self s))) s new_size"

text \<open>
  Lines 220 to 227 of \<^verbatim>\<open>_run_binary_scaling\<close>, after a trial that returned: \<open>None\<close> is
  the \<^verbatim>\<open>break\<close> on \<^verbatim>\<open>high - low <= 1\<close>. \<^verbatim>\<open>if high:\<close> is false for \<^verbatim>\<open>None\<close> and for 0.
\<close>

definition succeeded_adjust ::
  "state \<Rightarrow> int \<Rightarrow> int option \<Rightarrow> ((exn + (int \<times> bool)) \<times> state) option" where
  "succeeded_adjust s low high =
     (case high of
        None \<Rightarrow> Some (adjust_batch_size s 2 None (Some ''succeeded''))
      | Some h \<Rightarrow>
          if h \<noteq> 0
          then (if h - low \<le> 1 then None
                else Some (adjust_batch_size s 1 (Some ((h + low) div 2)) (Some ''succeeded'')))
          else Some (adjust_batch_size s 2 None (Some ''succeeded'')))"

text \<open>
  None of the helpers touches the callback object, and a given value is only ever
  lowered by the guard: the two facts that bound the loop of the binary search.
\<close>

lemma self_try_loop_run: "self (snd (try_loop_run env s)) = self s"
  by (simp add: try_loop_run_def Let_def split: option.splits sum.splits)

lemma self_adjust_batch_size: "self (snd (adjust_batch_size s f v d)) = self s"
  by (simp add: adjust_batch_size_def Let_def split: option.splits sum.splits)

lemma self_reset_dataloaders: "self (reset_dataloaders env s) = self s"
  by (simp add: reset_dataloaders_def Let_def)

lemma clamp_size_le: "clamp_size n dl \<le> n"
  by (simp add: clamp_size_def)

lemma adjust_batch_size_value_le:
  "adjust_batch_size s f (Some v) d = (Inr (n, c), s') \<Longrightarrow> n \<le> v"
  by (auto simp: adjust_batch_size_def Let_def clamp_size_le split: option.splits sum.splits)

text \<open>
  \<^verbatim>\<open>_run_binary_scaling\<close>: the body of \<^verbatim>\<open>while True\<close>; the arguments are the locals
  \<^verbatim>\<open>new_size\<close>, \<^verbatim>\<open>low\<close>, \<^verbatim>\<open>high\<close> and \<^verbatim>\<open>count\<close>. Next to what the method
  returns or raises, the loop gives the values of \<^verbatim>\<open>low\<close> and \<^verbatim>\<open>high\<close> when it is
  left, so that the bracket can be spoken about.
\<close>

function binary_loop ::
  "env \<Rightarrow> state \<Rightarrow> int \<Rightarrow> int \<Rightarrow> int option \<Rightarrow> int
     \<Rightarrow> ((exn + int) \<times> state) \<times> int \<times> int option" where
  "binary_loop env s new_size low high count =
     (case try_loop_run env s of
        (None, s1) \<Rightarrow>
          if count + 1 > max_trials (self s1) then ((Inr new_size, s1), low, high)
          else (case succeeded_adjust s1 new_size high of
                  None \<Rightarrow> ((Inr new_size, s1), new_size, high)
                | Some (Inl e, s2) \<Rightarrow> ((Inl e, s2), new_size, high)
                | Some (Inr (new_size', changed), s2) \<Rightarrow>
                    if changed
                    then binary_loop env (reset_dataloaders env s2) new_size' new_size high
                           (count + 1)
                    else ((Inr new_size', s2), new_size, high))
      | (Some e, s1) \<Rightarrow>
          (case e of
             RuntimeError m \<Rightarrow>
               if is_oom_error env m
               then (case adjust_batch_size s1 1 (Some ((new_size + low) div 2))
                            (Some ''failed'') of
                       (Inl e', s2) \<Rightarrow> ((Inl e', s2), low, Some new_size)
                     | (Inr (new_size', changed), s2) \<Rightarrow>
                         let s3 = (if changed then reset_dataloaders env s2 else s2)
                         in if new_size - low \<le> 1 then ((Inr new_size', s3), low, Some new_size)
                            else binary_loop env s3 new_size' low (Some new_size) count)
               else ((Inl e, s1), low, high)
           | _ \<Rightarrow> ((Inl e, s1), low, high)))"
  by pat_completeness auto
termination
proof (relation "measures [\<lambda>(env, s, new_size, low, high, count). nat (max_trials (self s) + 1 - count),
                           \<lambda>(env, s, new_size, low, high, count). nat (new_size - low)]",
       goal_cases)
  case 1
  show ?case by simp
next
  case (2 env s new_size low high count x1 s1 r x2 s2 x3 new_size' changed)
  have "self s1 = self s"
    using 2(1) [symmetric] self_try_loop_run [of env s] by simp
  moreover have "self s2 = self s1"
  proof -
    from 2(4,5) obtain f v d where "adjust_batch_size s1 f v d = (x2, s2)"
      by (auto simp: succeeded_adjust_def split: option.splits if_splits)
    then show ?thesis
      using self_adjust_batch_size [of s1 f v d] by simp
  qed
  ultimately show ?case
    using 2(3) by (simp add: self_reset_dataloaders)
next
  case (3 env s new_size low high count x1 s1 e m x2 s2 x3 new_size' changed s3)
  have a: "self s1 = self s"
    using 3(1) [symmetric] self_try_loop_run [of env s] by simp
  have b: "self s2 = self s1"
    using 3(5) [symmetric] self_adjust_batch_size [of s1 1 "Some ((new_size + low) div 2)" "Some ''failed''"]
    by simp
  have c: "self s3 = self s"
    using a b 3(8) by (simp add: self_reset_dataloaders)
  have "new_size' \<le> (new_size + low) div 2"
    using 3(5,6,7) [symmetric] adjust_batch_size_value_le [of s1 1 "(new_size + low) div 2" "Some ''failed''" new_size' changed s2]
    by simp
  then have "new_size' < new_size"
    using 3(9) by linarith
  then show ?case
    using c 3(9) by simp
qed

declare binary_loop.simps [simp del]

definition run_binary_scaling :: "env \<Rightarrow> state \<Rightarrow> int \<Rightarrow> (exn + int) \<times> state" where
  "run_binary_scaling env s new_size = fst (binary_loop env s new_size 1 None 0)"

section \<open>Saving, overwriting and restoring the trainer's parameters\<close>

definition active_progress :: "trainer \<Rightarrow> blob" where
  "active_progress t =
     (case state_fn t of
        FITTING \<Rightarrow> progress (fit_loop t)
      | VALIDATING \<Rightarrow> progress (validate_loop t)
      | TESTING \<Rightarrow> progress (test_loop t)
      | PREDICTING \<Rightarrow> progress (predict_loop t))"

definition active_verbose :: "trainer \<Rightarrow> bool option" where
  "active_verbose t =
     (case state_fn t of
        FITTING \<Rightarrow> verbose (fit_loop t)
      | VALIDATING \<Rightarrow> verbose (validate_loop t)
      | TESTING \<Rightarrow> verbose (test_loop t)
      | PREDICTING \<Rightarrow> verbose (predict_loop t))"

definition set_verbose :: "bool \<Rightarrow> trainer \<Rightarrow> trainer" where
  "set_verbose v t =
     (case state_fn t of
        FITTING \<Rightarrow> t\<lparr>fit_loop := (fit_loop t)\<lparr>verbose := Some v\<rparr>\<rparr>
      | VALIDATING \<Rightarrow> t\<lparr>validate_loop := (validate_loop t)\<lparr>verbose := Some v\<rparr>\<rparr>
      | TESTING \<Rightarrow> t\<lparr>test_loop := (test_loop t)\<lparr>verbose := Some v\<rparr>\<rparr>
      | PREDICTING \<Rightarrow> t\<lparr>predict_loop := (predict_loop t)\<lparr>verbose := Some v\<rparr>\<rparr>)"

text \<open>
  \<^verbatim>\<open>_dump_params\<close>. \<^verbatim>\<open>trainer.global_step\<close> and \<^verbatim>\<open>trainer.max_steps\<close> are the
  trainer's properties that read the fit loop.
\<close>

definition dump_params :: "state \<Rightarrow> state" where
  "dump_params s =
     (let t = trainer s;
          d0 = \<lparr>d_logger = Some (logger t), d_callbacks = Some (callbacks t),
                d_global_step = None, d_max_steps = None, d_limit_val_batches = None,
                d_limit_eval_batches = None, d_loop_state_dict = None,
                d_loop_verbose = None\<rparr>;
          d1 = (case state_fn t of
                  FITTING \<Rightarrow> d0\<lparr>d_global_step := Some (global_step (fit_loop t)),
                                 d_max_steps := Some (max_steps (fit_loop t)),
                                 d_limit_val_batches := Some (limit_val_batches t)\<rparr>
                | VALIDATING \<Rightarrow> d0\<lparr>d_limit_eval_batches := Some (limit_val_batches t)\<rparr>
                | TESTING \<Rightarrow> d0\<lparr>d_limit_eval_batches := Some (limit_test_batches t)\<rparr>
                | PREDICTING \<Rightarrow> d0\<lparr>d_limit_eval_batches := Some (limit_predict_batches t)\<rparr>);
          d2 = d1\<lparr>d_loop_state_dict := Some (active_progress t),
                   d_loop_verbose := active_verbose t\<rparr>
      in s\<lparr>self := (self s)\<lparr>dumped := d2\<rparr>\<rparr>)"

definition reset_params :: "state \<Rightarrow> state" where
  "reset_params s =
     (let t = trainer s; n = steps_per_trial (self s);
          t1 = t\<lparr>logger := (if logger t \<noteq> None then Some DummyLogger else None),
                  callbacks := []\<rparr>
      in s\<lparr>trainer :=
           (case state_fn t1 of
              FITTING \<Rightarrow> t1\<lparr>limit_val_batches := n,
                             fit_loop := (fit_loop t1)\<lparr>max_steps := n\<rparr>\<rparr>
            | VALIDATING \<Rightarrow> t1\<lparr>limit_val_batches := n,
                                validate_loop := (validate_loop t1)\<lparr>verbose := Some False\<rparr>\<rparr>
            | TESTING \<Rightarrow> t1\<lparr>limit_test_batches := n,
                             test_loop := (test_loop t1)\<lparr>verbose := Some False\<rparr>\<rparr>
            | PREDICTING \<Rightarrow> t1\<lparr>limit_predict_batches := n\<rparr>)\<rparr>)"

text \<open>
  Lines 337 to 350 of \<^verbatim>\<open>_restore_params\<close>, the branch of the active mode. A missing
  key raises where it is read, after the writes before it.
\<close>

definition restore_mode_params :: "dumped_params \<Rightarrow> trainer \<Rightarrow> (exn \<times> trainer) + trainer" where
  "restore_mode_params d t =
     (case state_fn t of
        FITTING \<Rightarrow>
          (case d_global_step d of
             None \<Rightarrow> Inl (KeyError ''global_step'', t)
           | Some g \<Rightarrow>
               let t1 = t\<lparr>fit_loop := (fit_loop t)\<lparr>global_step := g\<rparr>\<rparr>
               in (case d_max_steps d of
                     None \<Rightarrow> Inl (KeyError ''max_steps'', t1)
                   | Some ms \<Rightarrow>
                       let t2 = t1\<lparr>fit_loop := (fit_loop t1)\<lparr>max_steps := ms\<rparr>\<rparr>
                       in (case d_limit_val_batches d of
                             None \<Rightarrow> Inl (KeyError ''limit_val_batches'', t2)
                           | Some l \<Rightarrow> Inr (t2\<lparr>limit_val_batches := l\<rparr>))))
      | VALIDATING \<Rightarrow>
          (case d_limit_eval_batches d of
             None \<Rightarrow> Inl (KeyError ''limit_eval_batches'', t)
           | Some l \<Rightarrow> Inr (t\<lparr>limit_val_batches := l\<rparr>))
      | TESTING \<Rightarrow>
          (case d_limit_eval_batches d of
             None \<Rightarrow> Inl (KeyError ''limit_eval_batches'', t)
           | Some l \<Rightarrow> Inr (t\<lparr>limit_test_batches := l\<rparr>))
      | PREDICTING \<Rightarrow>
          (case d_limit_eval_batches d of
             None \<Rightarrow> Inl (KeyError ''limit_eval_batches'', t)
           | Some l \<Rightarrow> Inr (t\<lparr>limit_predict_batches := l\<rparr>)))"

definition restore_params :: "state \<Rightarrow> exn option \<times> state" where
  "restore_params s =
     (let d = dumped (self s); t = trainer s
      in case d_logger d of
           None \<Rightarrow> (Some (KeyError ''logger''), s)
         | Some lg \<Rightarrow>
             (case d_callbacks d of
                None \<Rightarrow> (Some (KeyError ''callbacks''), s\<lparr>trainer := t\<lparr>logger := lg\<rparr>\<rparr>)
              | Some cbs \<Rightarrow>
                  (case restore_mode_params d (t\<lparr>logger := lg, callbacks := cbs\<rparr>) of
                     Inl (e, t3) \<Rightarrow> (Some e, s\<lparr>trainer := t3\<rparr>)
                   | Inr t3 \<Rightarrow>
                       (case d_loop_state_dict d of
                          None \<Rightarrow> (Some (KeyError ''loop_state_dict''), s\<lparr>trainer := t3\<rparr>)
                        | Some b \<Rightarrow>
                            (None,
                             s\<lparr>trainer :=
                                 (case d_loop_verbose d of
                                    None \<Rightarrow> load_state_dict b t3
                                  | Some v \<Rightarrow> set_verbose v (load_state_dict b t3))\<rparr>)))))"

section \<open>The controller\<close>

text \<open>
  \<^verbatim>\<open>scale_batch_size\<close> is given in pieces. The check of \<^verbatim>\<open>lightning_hasattr\<close> that the
  source repeats (lines 113 to 116) is the one check here, and the calls of
  \<^verbatim>\<open>garbage_collection_cuda\<close> have no effect on this state.

  Lines 157 to 161: on the worker of global rank zero the
  checkpoint is restored and its file removed when it exists.
\<close>

definition restore_and_remove_checkpoint :: "env \<Rightarrow> state \<Rightarrow> exn option \<times> state" where
  "restore_and_remove_checkpoint env s =
     (if is_global_zero (trainer s)
      then (case tmp_file s of
              None \<Rightarrow> (Some FileNotFoundError, s)
            | Some c \<Rightarrow>
                (None, s\<lparr>trainer := restore_checkpoint env c (trainer s), tmp_file := None\<rparr>))
      else (None, s))"

text \<open>Lines 164 and 165.\<close>

definition decrement_counters :: "state \<Rightarrow> state" where
  "decrement_counters s =
     (let t = trainer s; fl = fit_loop t
      in s\<lparr>trainer := t\<lparr>fit_loop := fl\<lparr>global_step := global_step fl - 1,
                                           current_epoch := current_epoch fl - 1\<rparr>\<rparr>\<rparr>)"

definition set_progress_bar :: "bool \<Rightarrow> state \<Rightarrow> state" where
  "set_progress_bar b s =
     (case progress_bar_enabled (trainer s) of
        None \<Rightarrow> s
      | Some _ \<Rightarrow> s\<lparr>trainer := (trainer s)\<lparr>progress_bar_enabled := Some b\<rparr>\<rparr>)"

text \<open>Lines 155 to 176: what follows a search that returned \<^verbatim>\<open>new_size\<close>.\<close>

definition finish_search :: "env \<Rightarrow> state \<Rightarrow> int \<Rightarrow> exn option \<times> state" where
  "finish_search env s new_size =
     (case restore_and_remove_checkpoint env s of
        (Some e, s1) \<Rightarrow> (Some e, s1)
      | (None, s1) \<Rightarrow>
          (case restore_params (decrement_counters s1) of
             (Some e, s2) \<Rightarrow> (Some e, s2)
           | (None, s2) \<Rightarrow>
               let s3 = set_progress_bar True s2;
                   s4 = s3\<lparr>messages := messages s3 @ [Print new_size],
                           self := (self s3)\<lparr>optimal_batch_size := new_size\<rparr>\<rparr>
               in if early_exit (self s4) then (Some TunerExitException, s4) else (None, s4)))"

definition scale_batch_size :: "env \<Rightarrow> state \<Rightarrow> exn option \<times> state" where
  "scale_batch_size env s =
     (if fast_dev_run (trainer s)
      then (None, s\<lparr>messages := messages s @ [Warn Skipping_fast_dev_run]\<rparr>)
      else if \<not> lightning_hasattr (pl_module s)
      then (Some (MisconfigurationException ''Field not found in both model and model.hparams''), s)
      else
        let s0 = (if attr (pl_module s) \<noteq> None \<and> hparams (pl_module s) \<noteq> None
                  then s\<lparr>messages := messages s @ [Warn Mutually_exclusive_fields]\<rparr>
                  else s)
        in if \<not> train_source_is_module (trainer s0)
           then (Some (MisconfigurationException
                         ''The batch scaling feature cannot be used with dataloaders passed directly to .fit()''),
                 s0)
           else
             let s1 = reset_params (dump_params s0);
                 s2 = s1\<lparr>tmp_file := Some (dump_checkpoint env (trainer s1))\<rparr>;
                 s3 = set_progress_bar False s2
             in (case adjust_batch_size s3 1 (Some (init_val (self s3))) None of
                   (Inl e, s4) \<Rightarrow> (Some e, s4)
                 | (Inr (new_size, _), s4) \<Rightarrow>
                     (case (case mode (self s4) of
                              Power \<Rightarrow> run_power_scaling env s4 new_size
                            | Binsearch \<Rightarrow> run_binary_scaling env s4 new_size) of
                        (Inl e, s5) \<Rightarrow> (Some e, s5)
                      | (Inr new_size', s5) \<Rightarrow> finish_search env s5 new_size')))"

section \<open>A simulated trainer\<close>

text \<open>
  The set-up of the end-to-end properties: a trial fails with the message of an
  allocation failure exactly when the batch size exceeds the threshold, a data set
  of \<open>D\<close> items whose loader has \<open>\<lceil>D / batch_size\<rceil>\<close> batches, a checkpoint that
  stores the two counters incremented and a connector that writes them back.
\<close>

definition threshold_oracle :: "int \<Rightarrow> nat \<Rightarrow> int option \<Rightarrow> string option" where
  "threshold_oracle T n b =
     (case b of
        None \<Rightarrow> None
      | Some v \<Rightarrow> if v > T then Some ''CUDA out of memory'' else None)"

definition always_raises :: "string \<Rightarrow> nat \<Rightarrow> int option \<Rightarrow> string option" where
  "always_raises m n b = Some m"

definition derived_loader :: "nat \<Rightarrow> pl_module \<Rightarrow> dataloader" where
  "derived_loader D m =
     \<lparr>has_len_all_ranks = True,
      loader_len = (case lightning_getattr m of
                      None \<Rightarrow> 0
                    | Some b \<Rightarrow> if b \<le> 0 then 0 else nat ((int D + b - 1) div b)),
      dataset_len = D\<rparr>"

definition example_env :: "(nat \<Rightarrow> int option \<Rightarrow> string option) \<Rightarrow> nat \<Rightarrow> env" where
  "example_env oracle D =
     \<lparr>is_oom_error = (\<lambda>m. m = ''CUDA out of memory''),
      loop_run = oracle,
      fit_loop_ran = (\<lambda>n l. l\<lparr>progress := [1, 1], global_step := global_step l + 1\<rparr>),
      loop_ran = (\<lambda>n l. l\<lparr>progress := [1]\<rparr>),
      derive_train = derived_loader D,
      derive_val = (\<lambda>m. [derived_loader D m]),
      derive_test = (\<lambda>m. [derived_loader D m]),
      derive_predict = (\<lambda>m. [derived_loader D m]),
      dump_checkpoint = (\<lambda>t. \<lparr>ckpt_global_step = global_step (fit_loop t) + 1,
                               ckpt_current_epoch = current_epoch (fit_loop t) + 1\<rparr>),
      restore_checkpoint =
        (\<lambda>c t. t\<lparr>fit_loop := (fit_loop t)\<lparr>global_step := ckpt_global_step c,
                                            current_epoch := ckpt_current_epoch c\<rparr>\<rparr>)\<rparr>"

definition example_trainer :: "trainer_fn \<Rightarrow> nat \<Rightarrow> trainer" where
  "example_trainer fn D =
     \<lparr>fast_dev_run = False, state_fn = fn, is_global_zero = True,
      train_source_is_module = True,
      logger = Some (UserLogger ''tensorboard''), callbacks = [''BatchSizeFinder''],
      limit_val_batches = 10, limit_test_batches = 11, limit_predict_batches = 12,
      fit_loop = \<lparr>progress = [0, 0], verbose = None, global_step = 0, current_epoch = 0,
                   max_steps = - 1\<rparr>,
      validate_loop = \<lparr>progress = [0], verbose = Some True\<rparr>,
      test_loop = \<lparr>progress = [0], verbose = Some True\<rparr>,
      predict_loop = \<lparr>progress = [0], verbose = None\<rparr>,
      train_dataloader = derived_loader D \<lparr>attr = Some 1, hparams = None\<rparr>,
      val_dataloaders = [derived_loader D \<lparr>attr = Some 1, hparams = None\<rparr>],
      test_dataloaders = [derived_loader D \<lparr>attr = Some 1, hparams = None\<rparr>],
      predict_dataloaders = [derived_loader D \<lparr>attr = Some 1, hparams = None\<rparr>],
      progress_bar_enabled = Some True\<rparr>"

definition example_state :: "search_mode \<Rightarrow> trainer_fn \<Rightarrow> int \<Rightarrow> int \<Rightarrow> nat \<Rightarrow> state" where
  "example_state md fn iv mt D =
     \<lparr>trainer = example_trainer fn D,
      pl_module = \<lparr>attr = Some 1, hparams = None\<rparr>,
      self = \<lparr>mode = md, steps_per_trial = 1, init_val = iv, max_trials = mt,
               optimal_batch_size = iv, early_exit = False,
               dumped = \<lparr>d_logger = None, d_callbacks = None, d_global_step = None,
                          d_max_steps = None, d_limit_val_batches = None,
                          d_limit_eval_batches = None, d_loop_state_dict = None,
                          d_loop_verbose = None\<rparr>\<rparr>,
      tmp_file = None, trials = 0, successes = 0, messages = []\<rparr>"

section \<open>The guard on the batch size\<close>

text \<open>
  C5, as the specification states it: with a known length a candidate above the
  data set size becomes the data set size. The guard compares the candidate with
  the number of batches of the loader, not with the data set size, so a loader
  that reports more batches than its data set has items lets such a candidate
  through: 8 stays 8 on a data set of 5 items served in 10 batches.
\<close>

theorem clamp_size_above_dataset_counterexample:
  "has_len_all_ranks \<lparr>has_len_all_ranks = True, loader_len = 10, dataset_len = 5\<rparr>
   \<and> int (dataset_len \<lparr>has_len_all_ranks = True, loader_len = 10, dataset_len = 5\<rparr>) < 8
   \<and> clamp_size 8 \<lparr>has_len_all_ranks = True, loader_len = 10, dataset_len = 5\<rparr> = 8
   \<and> clamp_size 8 \<lparr>has_len_all_ranks = True, loader_len = 10, dataset_len = 5\<rparr>
       \<noteq> int (dataset_len \<lparr>has_len_all_ranks = True, loader_len = 10, dataset_len = 5\<rparr>)"
  by (simp add: clamp_size_def is_valid_batch_size_def)

text \<open>
  C5, amended: with a known length, a candidate above both the number of batches
  and the data set size is replaced by the data set size and every other candidate
  is returned unchanged; whenever the loader has no more batches than its data set
  has items this is the clamp of the specification; with an unknown length every
  candidate is returned unchanged.
\<close>

theorem clamp_size_cases:
  "clamp_size candidate dl =
     (if has_len_all_ranks dl \<and> int (loader_len dl) < candidate
         \<and> int (dataset_len dl) < candidate
      then int (dataset_len dl) else candidate)
   \<and> (has_len_all_ranks dl \<and> loader_len dl \<le> dataset_len dl \<longrightarrow>
        clamp_size candidate dl =
          (if int (dataset_len dl) < candidate then int (dataset_len dl) else candidate))
   \<and> (\<not> has_len_all_ranks dl \<longrightarrow> clamp_size candidate dl = candidate)"
  by (auto simp: clamp_size_def is_valid_batch_size_def)

theorem clamp_size_cases_witness:
  "has_len_all_ranks (derived_loader 100 \<lparr>attr = Some 64, hparams = None\<rparr>)
   \<and> loader_len (derived_loader 100 \<lparr>attr = Some 64, hparams = None\<rparr>)
       \<le> dataset_len (derived_loader 100 \<lparr>attr = Some 64, hparams = None\<rparr>)
   \<and> clamp_size 128 (derived_loader 100 \<lparr>attr = Some 64, hparams = None\<rparr>) = 100
   \<and> clamp_size 64 (derived_loader 100 \<lparr>attr = Some 64, hparams = None\<rparr>) = 64
   \<and> \<not> has_len_all_ranks \<lparr>has_len_all_ranks = False, loader_len = 0, dataset_len = 0\<rparr>
   \<and> clamp_size 128 \<lparr>has_len_all_ranks = False, loader_len = 0, dataset_len = 0\<rparr> = 128"
  using clamp_size_cases [of 128 "derived_loader 100 \<lparr>attr = Some 64, hparams = None\<rparr>"]
        clamp_size_cases [of 64 "derived_loader 100 \<lparr>attr = Some 64, hparams = None\<rparr>"]
        clamp_size_cases [of 128 "\<lparr>has_len_all_ranks = False, loader_len = 0, dataset_len = 0\<rparr>"]
  by (simp add: derived_loader_def lightning_getattr_def)

section \<open>Errors that are not memory exhaustion\<close>

lemma try_loop_run_raises:
  assumes "loop_run env (trials s) (lightning_getattr (pl_module s)) = Some m"
    and "d_loop_state_dict (dumped (self s)) \<noteq> None"
    and "state_fn (trainer s) = FITTING \<longrightarrow> d_global_step (dumped (self s)) \<noteq> None"
  shows "fst (try_loop_run env s) = Some (RuntimeError m)"
    and "pl_module (snd (try_loop_run env s)) = pl_module s"
    and "messages (snd (try_loop_run env s)) = messages s"
    and "successes (snd (try_loop_run env s)) = successes s"
  using assms by (auto simp: try_loop_run_def Let_def split: option.splits)

text \<open>
  C6: when the trial of a state whose parameters were dumped raises a runtime
  error that the classifier does not recognise as memory exhaustion, both loops
  raise that very error at once, from any iteration: the state is the one the
  trial left, the locals of the binary search are untouched, and the batch size,
  the messages and the count of successful trials are as before the trial.
\<close>

theorem non_oom_error_reraised:
  assumes "loop_run env (trials s) (lightning_getattr (pl_module s)) = Some m"
    and "\<not> is_oom_error env m"
    and "d_loop_state_dict (dumped (self s)) \<noteq> None"
    and "state_fn (trainer s) = FITTING \<longrightarrow> d_global_step (dumped (self s)) \<noteq> None"
  shows "power_loop env (Suc n) s new_size = (Inl (RuntimeError m), snd (try_loop_run env s))
       \<and> binary_loop env s new_size low high count
           = ((Inl (RuntimeError m), snd (try_loop_run env s)), low, high)
       \<and> pl_module (snd (try_loop_run env s)) = pl_module s
       \<and> messages (snd (try_loop_run env s)) = messages s
       \<and> successes (snd (try_loop_run env s)) = successes s"
proof -
  obtain s1 where t: "try_loop_run env s = (Some (RuntimeError m), s1)"
    using try_loop_run_raises(1) [OF assms(1,3,4)] by (cases "try_loop_run env s") simp
  have "power_loop env (Suc n) s new_size = (Inl (RuntimeError m), s1)"
    using t assms(2) by simp
  moreover have "binary_loop env s new_size low high count
                   = ((Inl (RuntimeError m), s1), low, high)"
    using t assms(2) by (simp add: binary_loop.simps)
  ultimately show ?thesis
    using t try_loop_run_raises(2,3,4) [OF assms(1,3,4)] by simp
qed

theorem non_oom_error_reraised_witness:
  "loop_run (example_env (always_raises ''device-side assert triggered'') 100)
     (trials (dump_params (example_state Power FITTING 2 25 100)))
     (lightning_getattr (pl_module (dump_params (example_state Power FITTING 2 25 100))))
     = Some ''device-side assert triggered''
   \<and> \<not> is_oom_error (example_env (always_raises ''device-side assert triggered'') 100)
         ''device-side assert triggered''
   \<and> fst (power_loop (example_env (always_raises ''device-side assert triggered'') 100) (Suc 24)
            (dump_params (example_state Power FITTING 2 25 100)) 1)
       = Inl (RuntimeError ''device-side assert triggered'')
   \<and> fst (fst (binary_loop (example_env (always_raises ''device-side assert triggered'') 100)
                 (dump_params (example_state Power FITTING 2 25 100)) 1 1 None 0))
       = Inl (RuntimeError ''device-side assert triggered'')"
  using non_oom_error_reraised
          [of "example_env (always_raises ''device-side assert triggered'') 100"
              "dump_params (example_state Power FITTING 2 25 100)"
              "''device-side assert triggered''" 24 1 1 None 0]
  by (simp add: example_env_def always_raises_def dump_params_def example_state_def
        example_trainer_def active_progress_def Let_def)

section \<open>Snapshot and restore\<close>

text \<open>
  C7: restoring right after the dump raises nothing and returns the very state,
  in each of the four run modes; and the restore is what puts the dumped values
  back: from any later state of the same run mode that still holds the dump,
  whatever has happened to the trainer in between, \<^verbatim>\<open>_restore_params\<close> raises nothing
  and leaves the logger, the callback list, the limit of the active mode, the
  global step and \<^verbatim>\<open>max_steps\<close> of the fit loop (when fitting), the progress of
  the active loop and its \<^verbatim>\<open>verbose\<close> flag (when it had one) as they were when
  the dump was taken, and touches neither the module nor the callback object.
\<close>

theorem restore_dump_round_trip:
  assumes "dumped (self s') = dumped (self (dump_params s))"
    and "state_fn (trainer s') = state_fn (trainer s)"
  shows "restore_params (dump_params s) = (None, dump_params s)
       \<and> trainer (dump_params s) = trainer s
       \<and> fst (restore_params s') = None
       \<and> logger (trainer (snd (restore_params s'))) = logger (trainer s)
       \<and> callbacks (trainer (snd (restore_params s'))) = callbacks (trainer s)
       \<and> active_progress (trainer (snd (restore_params s'))) = active_progress (trainer s)
       \<and> (active_verbose (trainer s) \<noteq> None \<longrightarrow>
            active_verbose (trainer (snd (restore_params s'))) = active_verbose (trainer s))
       \<and> (state_fn (trainer s) = FITTING \<longrightarrow>
            global_step (fit_loop (trainer (snd (restore_params s'))))
              = global_step (fit_loop (trainer s))
            \<and> max_steps (fit_loop (trainer (snd (restore_params s'))))
              = max_steps (fit_loop (trainer s)))
       \<and> (state_fn (trainer s) = FITTING \<or> state_fn (trainer s) = VALIDATING \<longrightarrow>
            limit_val_batches (trainer (snd (restore_params s'))) = limit_val_batches (trainer s))
       \<and> (state_fn (trainer s) = TESTING \<longrightarrow>
            limit_test_batches (trainer (snd (restore_params s')))
              = limit_test_batches (trainer s))
       \<and> (state_fn (trainer s) = PREDICTING \<longrightarrow>
            limit_predict_batches (trainer (snd (restore_params s')))
              = limit_predict_batches (trainer s))
       \<and> state_fn (trainer (snd (restore_params s'))) = state_fn (trainer s)
       \<and> pl_module (snd (restore_params s')) = pl_module s'
       \<and> self (snd (restore_params s')) = self s'"
proof -
  have a: "restore_params (dump_params s) = (None, dump_params s)
           \<and> trainer (dump_params s) = trainer s"
    by (cases "state_fn (trainer s)")
       (simp_all add: restore_params_def dump_params_def restore_mode_params_def Let_def
          load_state_dict_def set_verbose_def active_progress_def active_verbose_def
          split: option.splits)
  have b: "fst (restore_params s') = None
       \<and> logger (trainer (snd (restore_params s'))) = logger (trainer s)
       \<and> callbacks (trainer (snd (restore_params s'))) = callbacks (trainer s)
       \<and> active_progress (trainer (snd (restore_params s'))) = active_progress (trainer s)
       \<and> (active_verbose (trainer s) \<noteq> None \<longrightarrow>
            active_verbose (trainer (snd (restore_params s'))) = active_verbose (trainer s))
       \<and> (state_fn (trainer s) = FITTING \<longrightarrow>
            global_step (fit_loop (trainer (snd (restore_params s'))))
              = global_step (fit_loop (trainer s))
            \<and> max_steps (fit_loop (trainer (snd (restore_params s'))))
              = max_steps (fit_loop (trainer s)))
       \<and> (state_fn (trainer s) = FITTING \<or> state_fn (trainer s) = VALIDATING \<longrightarrow>
            limit_val_batches (trainer (snd (restore_params s'))) = limit_val_batches (trainer s))
       \<and> (state_fn (trainer s) = TESTING \<longrightarrow>
            limit_test_batches (trainer (snd (restore_params s')))
              = limit_test_batches (trainer s))
       \<and> (state_fn (trainer s) = PREDICTING \<longrightarrow>
            limit_predict_batches (trainer (snd (restore_params s')))
              = limit_predict_batches (trainer s))
       \<and> state_fn (trainer (snd (restore_params s'))) = state_fn (trainer s)
       \<and> pl_module (snd (restore_params s')) = pl_module s'
       \<and> self (snd (restore_params s')) = self s'"
    using assms
    by (cases "state_fn (trainer s)")
       (auto simp: restore_params_def dump_params_def restore_mode_params_def Let_def
          load_state_dict_def set_verbose_def active_progress_def active_verbose_def
          split: option.splits)
  from a b show ?thesis by blast
qed

theorem restore_dump_round_trip_witness:
  "dumped (self (snd (try_loop_run (example_env (threshold_oracle 33) 100)
             (reset_params (dump_params (example_state Power FITTING 2 25 100))))))
     = dumped (self (dump_params (example_state Power FITTING 2 25 100)))
   \<and> logger (trainer (snd (try_loop_run (example_env (threshold_oracle 33) 100)
             (reset_params (dump_params (example_state Power FITTING 2 25 100))))))
       = Some DummyLogger
   \<and> progress (fit_loop (trainer (snd (try_loop_run (example_env (threshold_oracle 33) 100)
             (reset_params (dump_params (example_state Power FITTING 2 25 100)))))))
       = [1, 1]
   \<and> logger (trainer (snd (restore_params (snd (try_loop_run
             (example_env (threshold_oracle 33) 100)
             (reset_params (dump_params (example_state Power FITTING 2 25 100))))))))
       = Some (UserLogger ''tensorboard'')
   \<and> callbacks (trainer (snd (restore_params (snd (try_loop_run
             (example_env (threshold_oracle 33) 100)
             (reset_params (dump_params (example_state Power FITTING 2 25 100))))))))
       = [''BatchSizeFinder'']
   \<and> limit_val_batches (trainer (snd (restore_params (snd (try_loop_run
             (example_env (threshold_oracle 33) 100)
             (reset_params (dump_params (example_state Power FITTING 2 25 100))))))))
       = 10
   \<and> active_progress (trainer (snd (restore_params (snd (try_loop_run
             (example_env (threshold_oracle 33) 100)
             (reset_params (dump_params (example_state Power FITTING 2 25 100))))))))
       = [0, 0]
   \<and> global_step (fit_loop (trainer (snd (restore_params (snd (try_loop_run
             (example_env (threshold_oracle 33) 100)
             (reset_params (dump_params (example_state Power FITTING 2 25 100)))))))))
       = 0
   \<and> max_steps (fit_loop (trainer (snd (restore_params (snd (try_loop_run
             (example_env (threshold_oracle 33) 100)
             (reset_params (dump_params (example_state Power FITTING 2 25 100)))))))))
       = - 1"
proof -
  let ?s = "example_state Power FITTING 2 25 100"
  let ?s' = "snd (try_loop_run (example_env (threshold_oracle 33) 100)
                    (reset_params (dump_params ?s)))"
  have d: "dumped (self ?s') = dumped (self (dump_params ?s))"
    by (simp add: self_try_loop_run reset_params_def Let_def)
  have f: "state_fn (trainer ?s') = state_fn (trainer ?s)"
    by code_simp
  have before: "logger (trainer ?s') = Some DummyLogger"
    "progress (fit_loop (trainer ?s')) = [1, 1]"
    by code_simp+
  have orig: "logger (trainer ?s) = Some (UserLogger ''tensorboard'')"
    "callbacks (trainer ?s) = [''BatchSizeFinder'']"
    "limit_val_batches (trainer ?s) = 10"
    "active_progress (trainer ?s) = [0, 0]"
    "global_step (fit_loop (trainer ?s)) = 0"
    "max_steps (fit_loop (trainer ?s)) = - 1"
    "state_fn (trainer ?s) = FITTING"
    by (simp_all add: example_state_def example_trainer_def active_progress_def)
  from restore_dump_round_trip [OF d f] d before orig show ?thesis
    by simp
qed

text \<open>
  In particular the trial configuration of \<^verbatim>\<open>_reset_params\<close> is undone exactly, as
  long as the loop of a validation or a test has the \<^verbatim>\<open>verbose\<close> attribute that
  \<^verbatim>\<open>_reset_params\<close> sets.
\<close>

lemma restore_undoes_reset:
  assumes "state_fn (trainer s) = VALIDATING \<longrightarrow> verbose (validate_loop (trainer s)) \<noteq> None"
    and "state_fn (trainer s) = TESTING \<longrightarrow> verbose (test_loop (trainer s)) \<noteq> None"
  shows "restore_params (reset_params (dump_params s)) = (None, dump_params s)"
  using assms
  by (cases "state_fn (trainer s)")
     (auto simp: restore_params_def reset_params_def dump_params_def restore_mode_params_def
        Let_def load_state_dict_def set_verbose_def active_progress_def active_verbose_def
        split: option.splits)

section \<open>The dry run\<close>

text \<open>
  C8: with \<^verbatim>\<open>fast_dev_run\<close> set the call returns without raising, and the state is the
  one it was given with the warning appended to the messages: no trial ran, nothing
  was dumped, no checkpoint was written, and the batch size, the logger, the
  callbacks, the limits and the counters are untouched.
\<close>

theorem skip_on_fast_dev_run:
  "fast_dev_run (trainer s) \<Longrightarrow>
     scale_batch_size env s = (None, s\<lparr>messages := messages s @ [Warn Skipping_fast_dev_run]\<rparr>)"
  by (simp add: scale_batch_size_def)

theorem skip_on_fast_dev_run_witness:
  "fast_dev_run (trainer ((example_state Power FITTING 2 25 100)
                   \<lparr>trainer := (example_trainer FITTING 100)\<lparr>fast_dev_run := True\<rparr>\<rparr>))
   \<and> fst (scale_batch_size (example_env (threshold_oracle 33) 100)
            ((example_state Power FITTING 2 25 100)
               \<lparr>trainer := (example_trainer FITTING 100)\<lparr>fast_dev_run := True\<rparr>\<rparr>)) = None
   \<and> trials (snd (scale_batch_size (example_env (threshold_oracle 33) 100)
            ((example_state Power FITTING 2 25 100)
               \<lparr>trainer := (example_trainer FITTING 100)\<lparr>fast_dev_run := True\<rparr>\<rparr>))) = 0
   \<and> tmp_file (snd (scale_batch_size (example_env (threshold_oracle 33) 100)
            ((example_state Power FITTING 2 25 100)
               \<lparr>trainer := (example_trainer FITTING 100)\<lparr>fast_dev_run := True\<rparr>\<rparr>))) = None
   \<and> pl_module (snd (scale_batch_size (example_env (threshold_oracle 33) 100)
            ((example_state Power FITTING 2 25 100)
               \<lparr>trainer := (example_trainer FITTING 100)\<lparr>fast_dev_run := True\<rparr>\<rparr>)))
       = \<lparr>attr = Some 1, hparams = None\<rparr>
   \<and> messages (snd (scale_batch_size (example_env (threshold_oracle 33) 100)
            ((example_state Power FITTING 2 25 100)
               \<lparr>trainer := (example_trainer FITTING 100)\<lparr>fast_dev_run := True\<rparr>\<rparr>)))
       = [Warn Skipping_fast_dev_run]"
  using skip_on_fast_dev_run
          [of "(example_state Power FITTING 2 25 100)
                 \<lparr>trainer := (example_trainer FITTING 100)\<lparr>fast_dev_run := True\<rparr>\<rparr>"
              "example_env (threshold_oracle 33) 100"]
  by (simp add: example_state_def)

section \<open>What the helpers leave alone\<close>

lemma try_loop_run_frame:
  "pl_module (snd (try_loop_run env s)) = pl_module s"
  "self (snd (try_loop_run env s)) = self s"
  "tmp_file (snd (try_loop_run env s)) = tmp_file s"
  "messages (snd (try_loop_run env s)) = messages s"
  by (simp_all add: try_loop_run_def Let_def split: option.splits sum.splits)

lemma try_loop_run_counts:
  "fst (try_loop_run env s) = None \<Longrightarrow>
     successes (snd (try_loop_run env s)) = Suc (successes s)
     \<and> trials (snd (try_loop_run env s)) = Suc (trials s)"
  "fst (try_loop_run env s) \<noteq> None \<Longrightarrow>
     successes (snd (try_loop_run env s)) = successes s
     \<and> trials (snd (try_loop_run env s)) \<le> Suc (trials s)"
  by (auto simp: try_loop_run_def Let_def split: option.splits sum.splits if_splits)

lemma adjust_batch_size_frame:
  "trainer (snd (adjust_batch_size s f v d)) = trainer s"
  "tmp_file (snd (adjust_batch_size s f v d)) = tmp_file s"
  "trials (snd (adjust_batch_size s f v d)) = trials s"
  "successes (snd (adjust_batch_size s f v d)) = successes s"
  by (simp_all add: adjust_batch_size_def Let_def split: option.splits sum.splits)

lemma reset_dataloaders_frame:
  "pl_module (reset_dataloaders env s) = pl_module s"
  "tmp_file (reset_dataloaders env s) = tmp_file s"
  "trials (reset_dataloaders env s) = trials s"
  "successes (reset_dataloaders env s) = successes s"
  "messages (reset_dataloaders env s) = messages s"
  by (simp_all add: reset_dataloaders_def Let_def)

lemma succeeded_adjust_frame:
  "succeeded_adjust s low high = Some (r, s') \<Longrightarrow>
     trainer s' = trainer s \<and> tmp_file s' = tmp_file s \<and> trials s' = trials s
     \<and> successes s' = successes s \<and> self s' = self s"
  using adjust_batch_size_frame [of s] self_adjust_batch_size [of s]
  by (auto simp: succeeded_adjust_def split: option.splits if_splits
       dest!: arg_cong [where f = snd])

section \<open>An invariant rule for the binary search\<close>

text \<open>
  To show that every way out of the loop satisfies \<open>Q\<close> it is enough to give a
  property \<open>I\<close> of the locals and the state at the head of the loop that holds at
  the start, is kept by the two branches that go round again, and gives \<open>Q\<close> at
  each \<^verbatim>\<open>break\<close> and each \<^verbatim>\<open>raise\<close>.
\<close>

lemma binary_loop_rule:
  assumes inv: "I s new_size low high count"
    and over: "\<And>s new_size low high count s1.
        \<lbrakk>I s new_size low high count; try_loop_run env s = (None, s1);
         count + 1 > max_trials (self s1)\<rbrakk>
        \<Longrightarrow> Q ((Inr new_size, s1), low, high)"
    and converged: "\<And>s new_size low high count s1.
        \<lbrakk>I s new_size low high count; try_loop_run env s = (None, s1);
         \<not> count + 1 > max_trials (self s1); succeeded_adjust s1 new_size high = None\<rbrakk>
        \<Longrightarrow> Q ((Inr new_size, s1), new_size, high)"
    and succeeded_raise: "\<And>s new_size low high count s1 e s2.
        \<lbrakk>I s new_size low high count; try_loop_run env s = (None, s1);
         \<not> count + 1 > max_trials (self s1);
         succeeded_adjust s1 new_size high = Some (Inl e, s2)\<rbrakk>
        \<Longrightarrow> Q ((Inl e, s2), new_size, high)"
    and unchanged: "\<And>s new_size low high count s1 n' s2.
        \<lbrakk>I s new_size low high count; try_loop_run env s = (None, s1);
         \<not> count + 1 > max_trials (self s1);
         succeeded_adjust s1 new_size high = Some (Inr (n', False), s2)\<rbrakk>
        \<Longrightarrow> Q ((Inr n', s2), new_size, high)"
    and grow: "\<And>s new_size low high count s1 n' s2.
        \<lbrakk>I s new_size low high count; try_loop_run env s = (None, s1);
         \<not> count + 1 > max_trials (self s1);
         succeeded_adjust s1 new_size high = Some (Inr (n', True), s2)\<rbrakk>
        \<Longrightarrow> I (reset_dataloaders env s2) n' new_size high (count + 1)"
    and other: "\<And>s new_size low high count s1 e.
        \<lbrakk>I s new_size low high count; try_loop_run env s = (Some e, s1);
         \<forall>m. e = RuntimeError m \<longrightarrow> \<not> is_oom_error env m\<rbrakk>
        \<Longrightarrow> Q ((Inl e, s1), low, high)"
    and failed_raise: "\<And>s new_size low high count s1 m e s2.
        \<lbrakk>I s new_size low high count; try_loop_run env s = (Some (RuntimeError m), s1);
         is_oom_error env m;
         adjust_batch_size s1 1 (Some ((new_size + low) div 2)) (Some ''failed'') = (Inl e, s2)\<rbrakk>
        \<Longrightarrow> Q ((Inl e, s2), low, Some new_size)"
    and failed_stop: "\<And>s new_size low high count s1 m n' c s2.
        \<lbrakk>I s new_size low high count; try_loop_run env s = (Some (RuntimeError m), s1);
         is_oom_error env m;
         adjust_batch_size s1 1 (Some ((new_size + low) div 2)) (Some ''failed'')
           = (Inr (n', c), s2);
         new_size - low \<le> 1\<rbrakk>
        \<Longrightarrow> Q ((Inr n', if c then reset_dataloaders env s2 else s2), low, Some new_size)"
    and failed_continue: "\<And>s new_size low high count s1 m n' c s2.
        \<lbrakk>I s new_size low high count; try_loop_run env s = (Some (RuntimeError m), s1);
         is_oom_error env m;
         adjust_batch_size s1 1 (Some ((new_size + low) div 2)) (Some ''failed'')
           = (Inr (n', c), s2);
         \<not> new_size - low \<le> 1\<rbrakk>
        \<Longrightarrow> I (if c then reset_dataloaders env s2 else s2) n' low (Some new_size) count"
  shows "Q (binary_loop env s new_size low high count)"
proof -
  have "e = env \<Longrightarrow> I s new_size low high count
          \<Longrightarrow> Q (binary_loop e s new_size low high count)" for e
  proof (induction e s new_size low high count rule: binary_loop.induct)
  case (1 e s new_size low high count)
  note e = "1.prems"(1) and I = "1.prems"(2)
  note IH = "1.IH" [unfolded e]
  show ?case unfolding e
  proof -
  obtain r s1 where t: "try_loop_run env s = (r, s1)"
    by (cases "try_loop_run env s")
  show "Q (binary_loop env s new_size low high count)"
  proof (cases r)
    case None
    note t' = t [unfolded None]
    show ?thesis
    proof (cases "count + 1 > max_trials (self s1)")
      case True
      have "Q ((Inr new_size, s1), low, high)"
        by (rule over [OF I t' True])
      then show ?thesis
        using t' True by (simp add: binary_loop.simps [of env s])
    next
      case False
      show ?thesis
      proof (cases "succeeded_adjust s1 new_size high")
        case n: None
        have "Q ((Inr new_size, s1), new_size, high)"
          by (rule converged [OF I t' False n])
        then show ?thesis
          using t' False n by (simp add: binary_loop.simps [of env s])
      next
        case (Some p)
        obtain a s2 where p: "p = (a, s2)" by (cases p)
        show ?thesis
        proof (cases a)
          case (Inl e)
          have "Q ((Inl e, s2), new_size, high)"
            by (rule succeeded_raise [OF I t' False Some [unfolded p Inl]])
          then show ?thesis
            using t' False Some p Inl by (simp add: binary_loop.simps [of env s])
        next
          case (Inr q)
          obtain n' c where q: "q = (n', c)" by (cases q)
          note sa = Some [unfolded p Inr q]
          show ?thesis
          proof (cases c)
            case True
            then have cT: "c = True" by simp
            have "I (reset_dataloaders env s2) n' new_size high (count + 1)"
              by (rule grow [OF I t' False sa [unfolded cT]])
            then have "Q (binary_loop env (reset_dataloaders env s2) n' new_size high (count + 1))"
              using IH(1) [OF t [symmetric] None False Some p [symmetric] Inr q [symmetric] True refl]
              by simp
            then show ?thesis
              using t' False sa True by (simp add: binary_loop.simps [of env s])
          next
            case c: False
            then have cF: "c = False" by simp
            have "Q ((Inr n', s2), new_size, high)"
              by (rule unchanged [OF I t' False sa [unfolded cF]])
            then show ?thesis
              using t' False sa c by (simp add: binary_loop.simps [of env s])
          qed
        qed
      qed
    qed
  next
    case (Some e)
    note t' = t [unfolded Some]
    show ?thesis
    proof (cases "\<exists>m. e = RuntimeError m \<and> is_oom_error env m")
      case False
      then have "\<forall>m. e = RuntimeError m \<longrightarrow> \<not> is_oom_error env m" by blast
      then have "Q ((Inl e, s1), low, high)"
        by (rule other [OF I t'])
      then show ?thesis
        using t' False by (cases e) (auto simp: binary_loop.simps [of env s])
    next
      case True
      then obtain m where m: "e = RuntimeError m" "is_oom_error env m" by auto
      note t'' = t' [unfolded m(1)]
      obtain a s2 where
        adj: "adjust_batch_size s1 1 (Some ((new_size + low) div 2)) (Some ''failed'') = (a, s2)"
        by (cases "adjust_batch_size s1 1 (Some ((new_size + low) div 2)) (Some ''failed'')")
      show ?thesis
      proof (cases a)
        case (Inl e')
        have "Q ((Inl e', s2), low, Some new_size)"
          by (rule failed_raise [OF I t'' m(2) adj [unfolded Inl]])
        then show ?thesis
          using t'' m(2) adj Inl by (simp add: binary_loop.simps [of env s])
      next
        case (Inr q)
        obtain n' c where q: "q = (n', c)" by (cases q)
        note adj' = adj [unfolded Inr q]
        show ?thesis
        proof (cases "new_size - low \<le> 1")
          case True
          have "Q ((Inr n', if c then reset_dataloaders env s2 else s2), low, Some new_size)"
            by (rule failed_stop [OF I t'' m(2) adj' True])
          then show ?thesis
            using t'' m(2) adj' True by (simp add: binary_loop.simps [of env s] Let_def)
        next
          case False
          have "I (if c then reset_dataloaders env s2 else s2) n' low (Some new_size) count"
            by (rule failed_continue [OF I t'' m(2) adj' False])
          then have "Q (binary_loop env (if c then reset_dataloaders env s2 else s2) n' low
                         (Some new_size) count)"
            using IH(2) [OF t [symmetric] Some m(1) m(2) adj [symmetric] Inr q [symmetric] refl False refl]
            by simp
          then show ?thesis
            using t'' m(2) adj' False by (simp add: binary_loop.simps [of env s] Let_def)
        qed
      qed
    qed
  qed
  qed
  qed
  then show ?thesis
    using inv by simp
qed

section \<open>The trial budget\<close>

lemma power_loop_trials: "trials (snd (power_loop env n s new_size)) \<le> trials s + n"
proof (induction n arbitrary: s new_size)
  case 0
  show ?case by simp
next
  case (Suc n)
  obtain r s1 where t: "try_loop_run env s = (r, s1)"
    by (cases "try_loop_run env s")
  have s1: "trials s1 \<le> Suc (trials s)"
    using t try_loop_run_counts [of env s] by (cases r) auto
  show ?case
  proof (cases r)
    case None
    obtain a s2 where adj: "adjust_batch_size s1 2 None (Some ''succeeded'') = (a, s2)"
      by (cases "adjust_batch_size s1 2 None (Some ''succeeded'')")
    have s2: "trials s2 = trials s1"
      using adj adjust_batch_size_frame(3) [of s1 2 None "Some ''succeeded''"] by simp
    show ?thesis
    proof (cases a)
      case (Inl e)
      then show ?thesis using t None adj s1 s2 by simp
    next
      case (Inr p)
      obtain n' c where p: "p = (n', c)" by (cases p)
      show ?thesis
        using t None adj Inr p s1 s2 Suc.IH [of "reset_dataloaders env s2" n']
        by (simp add: reset_dataloaders_frame)
    qed
  next
    case (Some e)
    obtain a s2 where adj: "adjust_batch_size s1 1 None None = (a, s2)"
      by (cases "adjust_batch_size s1 1 None None")
    have s2: "trials s2 = trials s1"
      using adj adjust_batch_size_frame(3) [of s1 1 None None] by simp
    show ?thesis
      using t Some adj s1 s2
      by (cases e; cases a) (auto split: prod.splits)
  qed
qed

lemma binary_loop_successes:
  "successes (snd (fst (binary_loop env s new_size low high count)))
     \<le> successes s + max 1 (nat (max_trials (self s) + 1 - count))"
proof -
  define B where "B = successes s + max 1 (nat (max_trials (self s) + 1 - count))"
  define mt where "mt = max_trials (self s)"
  define I where "I = (\<lambda>(s'::state) (n::int) (l::int) (h::int option) c.
      max_trials (self s') = mt \<and> successes s' + max 1 (nat (mt + 1 - c)) \<le> B)"
  define Q where "Q = (\<lambda>r :: ((exn + int) \<times> state) \<times> int \<times> int option.
      successes (snd (fst r)) \<le> B)"
  have tl: "\<And>s' r s1. try_loop_run env s' = (r, s1) \<Longrightarrow>
      self s1 = self s' \<and> (r = None \<longrightarrow> successes s1 = Suc (successes s'))
      \<and> (r \<noteq> None \<longrightarrow> successes s1 = successes s')"
    using try_loop_run_frame(2) try_loop_run_counts
    by (metis fst_conv snd_conv)
  have adj: "\<And>s1 f v d a s2. adjust_batch_size s1 f v d = (a, s2) \<Longrightarrow>
      self s2 = self s1 \<and> successes s2 = successes s1"
    using self_adjust_batch_size adjust_batch_size_frame(4) by (metis snd_conv)
  have "Q (binary_loop env s new_size low high count)"
  proof (rule binary_loop_rule [where I = I and Q = Q])
    show "I s new_size low high count"
      by (simp add: I_def B_def mt_def)
  qed (auto simp: I_def Q_def self_reset_dataloaders reset_dataloaders_frame
         dest!: tl adj succeeded_adjust_frame split: if_splits)
  then show ?thesis
    by (simp add: Q_def B_def)
qed

text \<open>
  C3, as stated: neither mode runs more than \<^verbatim>\<open>max_trials\<close> trials. The binary search
  counts a trial only after it returned and leaves on \<^verbatim>\<open>count > self.max_trials\<close>:
  with \<^verbatim>\<open>max_trials = 1\<close>, an initial value of 2 and a threshold of 33 it runs two
  trials.
\<close>

theorem binsearch_trials_counterexample:
  "max_trials (self (example_state Binsearch FITTING 2 1 100)) = 1
   \<and> trials (snd (scale_batch_size (example_env (threshold_oracle 33) 100)
          (example_state Binsearch FITTING 2 1 100))) = 2"
  by code_simp

text \<open>
  C3, amended: the power search runs at most \<^verbatim>\<open>max_trials\<close> trials, successful or
  not. In the binary search the budget counts the trials that returned: at most
  \<^verbatim>\<open>max_trials + 1\<close> of them (one when \<^verbatim>\<open>max_trials\<close> is not positive); the trials
  that ran out of memory are not counted against it.
\<close>

theorem trial_budget:
  "trials (snd (run_power_scaling env s new_size)) \<le> trials s + nat (max_trials (self s))
   \<and> successes (snd (run_binary_scaling env s new_size))
       \<le> successes s + max 1 (nat (max_trials (self s) + 1))"
  using power_loop_trials [of env "nat (max_trials (self s))" s new_size]
    binary_loop_successes [of env s new_size 1 None 0]
  by (simp add: run_power_scaling_def run_binary_scaling_def)

theorem trial_budget_witness:
  "trials (snd (run_power_scaling (example_env (threshold_oracle 33) 100)
                  (reset_params (dump_params (example_state Power FITTING 2 25 100))) 1))
     \<le> 0 + nat 25
   \<and> successes (snd (run_binary_scaling (example_env (threshold_oracle 33) 100)
                  (reset_params (dump_params (example_state Binsearch FITTING 2 1 100))) 1))
     \<le> 0 + max 1 (nat (1 + 1))"
  using trial_budget [of "example_env (threshold_oracle 33) 100"
                         "reset_params (dump_params (example_state Power FITTING 2 25 100))" 1]
        trial_budget [of "example_env (threshold_oracle 33) 100"
                         "reset_params (dump_params (example_state Binsearch FITTING 2 1 100))" 1]
  by (simp add: reset_params_def dump_params_def example_state_def Let_def)

section \<open>A runtime error that is not memory exhaustion reaches the caller\<close>

text \<open>
  The settings that the search itself never writes: the trial configuration of
  the trainer, the checkpoint file and the callback object.
\<close>

definition same_settings :: "state \<Rightarrow> state \<Rightarrow> bool" where
  "same_settings s s' =
     (logger (trainer s') = logger (trainer s)
      \<and> callbacks (trainer s') = callbacks (trainer s)
      \<and> state_fn (trainer s') = state_fn (trainer s)
      \<and> limit_val_batches (trainer s') = limit_val_batches (trainer s)
      \<and> limit_test_batches (trainer s') = limit_test_batches (trainer s)
      \<and> limit_predict_batches (trainer s') = limit_predict_batches (trainer s)
      \<and> progress_bar_enabled (trainer s') = progress_bar_enabled (trainer s)
      \<and> tmp_file s' = tmp_file s
      \<and> self s' = self s)"

lemma same_settings_refl: "same_settings s s"
  by (simp add: same_settings_def)

lemma same_settings_trans:
  "same_settings s s' \<Longrightarrow> same_settings s' s'' \<Longrightarrow> same_settings s s''"
  by (simp add: same_settings_def)

lemma same_settings_try_loop_run: "same_settings s (snd (try_loop_run env s))"
  by (cases "state_fn (trainer s)")
     (simp_all add: same_settings_def try_loop_run_def Let_def load_state_dict_def
        run_active_loop_def split: option.splits)

lemma same_settings_adjust_batch_size: "same_settings s (snd (adjust_batch_size s f v d))"
  by (simp add: same_settings_def adjust_batch_size_def Let_def split: option.splits sum.splits)

lemma same_settings_reset_dataloaders: "same_settings s (reset_dataloaders env s)"
  by (cases "state_fn (trainer s)") (simp_all add: same_settings_def reset_dataloaders_def Let_def)

lemma same_settings_succeeded_adjust:
  "succeeded_adjust s low high = Some (r, s') \<Longrightarrow> same_settings s s'"
  using same_settings_adjust_batch_size [of s]
  by (auto simp: succeeded_adjust_def split: option.splits if_splits
       dest!: arg_cong [where f = snd])

lemma same_settings_power_loop: "same_settings s (snd (power_loop env n s new_size))"
proof (induction n arbitrary: s new_size)
  case 0
  show ?case by (simp add: same_settings_refl)
next
  case (Suc n)
  obtain r s1 where t: "try_loop_run env s = (r, s1)"
    by (cases "try_loop_run env s")
  have s1: "same_settings s s1"
    using t same_settings_try_loop_run [of s env] by simp
  show ?case
  proof (cases r)
    case None
    obtain a s2 where adj: "adjust_batch_size s1 2 None (Some ''succeeded'') = (a, s2)"
      by (cases "adjust_batch_size s1 2 None (Some ''succeeded'')")
    have s2: "same_settings s s2"
      using adj same_settings_adjust_batch_size [of s1 2 None "Some ''succeeded''"] s1
      by (auto intro: same_settings_trans)
    show ?thesis
    proof (cases a)
      case (Inl e)
      then show ?thesis using t None adj s2 by simp
    next
      case (Inr p)
      obtain n' c where p: "p = (n', c)" by (cases p)
      have "same_settings s (snd (power_loop env n (reset_dataloaders env s2) n'))"
        using s2 same_settings_reset_dataloaders [of s2 env]
          Suc.IH [of "reset_dataloaders env s2" n']
        by (blast intro: same_settings_trans)
      then show ?thesis
        using t None adj Inr p s2 by simp
    qed
  next
    case (Some e)
    obtain a s2 where adj: "adjust_batch_size s1 1 None None = (a, s2)"
      by (cases "adjust_batch_size s1 1 None None")
    have s2: "same_settings s s2"
      using adj same_settings_adjust_batch_size [of s1 1 None None] s1
      by (auto intro: same_settings_trans)
    show ?thesis
      using t Some adj s1 s2
      by (cases e; cases a) (auto split: prod.splits)
  qed
qed

lemma same_settings_binary_loop:
  "same_settings s (snd (fst (binary_loop env s new_size low high count)))"
proof -
  define I where "I = (\<lambda>(s'::state) (n::int) (l::int) (h::int option) (c::int).
      same_settings s s')"
  define Q where "Q = (\<lambda>r :: ((exn + int) \<times> state) \<times> int \<times> int option.
      same_settings s (snd (fst r)))"
  have tl: "\<And>s' r s1. try_loop_run env s' = (r, s1) \<Longrightarrow> same_settings s' s1"
    using same_settings_try_loop_run by (metis snd_conv)
  have adj: "\<And>s1 f v d a s2. adjust_batch_size s1 f v d = (a, s2) \<Longrightarrow> same_settings s1 s2"
    using same_settings_adjust_batch_size by (metis snd_conv)
  note tr = same_settings_trans
  have "Q (binary_loop env s new_size low high count)"
  proof (rule binary_loop_rule [where I = I and Q = Q])
    show "I s new_size low high count"
      by (simp add: I_def same_settings_refl)
  qed (auto simp: I_def Q_def
         intro: tr [OF tr [OF _ tl] adj] tr [OF _ tl]
                tr [OF tr [OF _ tl] same_settings_succeeded_adjust]
                tr [OF tr [OF tr [OF _ tl] same_settings_succeeded_adjust]
                    same_settings_reset_dataloaders]
                tr [OF tr [OF tr [OF _ tl] adj] same_settings_reset_dataloaders])
  then show ?thesis
    by (simp add: Q_def)
qed

lemma adjust_batch_size_raises:
  "adjust_batch_size s f v d = (Inl e, s') \<Longrightarrow> e = AttributeError \<or> e = IndexError"
  by (auto simp: adjust_batch_size_def Let_def active_loader_def first_loader_def
       split: option.splits sum.splits trainer_fn.splits list.splits)

lemma finish_search_raises: "finish_search env s n = (Some e, s') \<Longrightarrow> e \<noteq> RuntimeError m"
  by (auto simp: finish_search_def restore_and_remove_checkpoint_def restore_params_def
        restore_mode_params_def Let_def
       split: option.splits sum.splits trainer_fn.splits if_splits prod.splits)

text \<open>
  C4, as stated: the restoration and the removal of the checkpoint still happen
  when a trial raises another runtime error. \<^verbatim>\<open>scale_batch_size\<close> has no
  \<^verbatim>\<open>try ... finally\<close>: the error leaves it from the call of the search, and the
  caller finds the dummy logger, no callbacks and the checkpoint file.
\<close>

theorem error_skips_restoration_counterexample:
  "fst (scale_batch_size (example_env (always_raises ''device-side assert triggered'') 100)
          (example_state Power FITTING 2 25 100))
     = Some (RuntimeError ''device-side assert triggered'')
   \<and> logger (trainer (example_state Power FITTING 2 25 100)) = Some (UserLogger ''tensorboard'')
   \<and> logger (trainer (snd (scale_batch_size
          (example_env (always_raises ''device-side assert triggered'') 100)
          (example_state Power FITTING 2 25 100)))) = Some DummyLogger
   \<and> callbacks (trainer (example_state Power FITTING 2 25 100)) = [''BatchSizeFinder'']
   \<and> callbacks (trainer (snd (scale_batch_size
          (example_env (always_raises ''device-side assert triggered'') 100)
          (example_state Power FITTING 2 25 100)))) = []
   \<and> tmp_file (snd (scale_batch_size
          (example_env (always_raises ''device-side assert triggered'') 100)
          (example_state Power FITTING 2 25 100))) \<noteq> None"
  by code_simp

text \<open>
  C4, amended: if a trial raises a runtime error that is not classified as memory
  exhaustion, the search is abandoned and the error reaches the caller, and none
  of the steps 8 to 11 is performed: the checkpoint file is still there, the
  logger is the dummy logger (when there was a logger), the callback list is
  empty, the limit of the active mode is \<^verbatim>\<open>steps_per_trial\<close>, the progress bar is
  not enabled again and \<^verbatim>\<open>optimal_batch_size\<close> is not written.
\<close>

theorem runtime_error_skips_restoration:
  assumes "scale_batch_size env s = (Some (RuntimeError m), s')"
  shows "tmp_file s' \<noteq> None
       \<and> callbacks (trainer s') = []
       \<and> logger (trainer s') = (if logger (trainer s) = None then None else Some DummyLogger)
       \<and> progress_bar_enabled (trainer s') \<noteq> Some True
       \<and> (state_fn (trainer s) = FITTING \<or> state_fn (trainer s) = VALIDATING \<longrightarrow>
            limit_val_batches (trainer s') = steps_per_trial (self s))
       \<and> (state_fn (trainer s) = TESTING \<longrightarrow>
            limit_test_batches (trainer s') = steps_per_trial (self s))
       \<and> (state_fn (trainer s) = PREDICTING \<longrightarrow>
            limit_predict_batches (trainer s') = steps_per_trial (self s))
       \<and> optimal_batch_size (self s') = optimal_batch_size (self s)"
proof -
  define s0 where "s0 = (if attr (pl_module s) \<noteq> None \<and> hparams (pl_module s) \<noteq> None
                         then s\<lparr>messages := messages s @ [Warn Mutually_exclusive_fields]\<rparr>
                         else s)"
  define s1 where "s1 = reset_params (dump_params s0)"
  define s3 where "s3 = set_progress_bar False
                          (s1\<lparr>tmp_file := Some (dump_checkpoint env (trainer s1))\<rparr>)"
  have s0: "trainer s0 = trainer s" "self s0 = self s"
    by (simp_all add: s0_def)
  have s3: "tmp_file s3 \<noteq> None" "callbacks (trainer s3) = []"
    "logger (trainer s3) = (if logger (trainer s) = None then None else Some DummyLogger)"
    "progress_bar_enabled (trainer s3) \<noteq> Some True"
    "state_fn (trainer s3) = state_fn (trainer s)"
    "optimal_batch_size (self s3) = optimal_batch_size (self s)"
    "steps_per_trial (self s3) = steps_per_trial (self s)"
    using s0
    by (cases "state_fn (trainer s)";
        simp add: s3_def s1_def reset_params_def dump_params_def set_progress_bar_def Let_def
          split: option.splits)+
  have lim: "state_fn (trainer s) = FITTING \<or> state_fn (trainer s) = VALIDATING \<Longrightarrow>
               limit_val_batches (trainer s3) = steps_per_trial (self s)"
    "state_fn (trainer s) = TESTING \<Longrightarrow> limit_test_batches (trainer s3) = steps_per_trial (self s)"
    "state_fn (trainer s) = PREDICTING \<Longrightarrow>
       limit_predict_batches (trainer s3) = steps_per_trial (self s)"
    using s0
    by (auto simp: s3_def s1_def reset_params_def dump_params_def set_progress_bar_def Let_def
         split: option.splits)
  obtain a s4 where adj: "adjust_batch_size s3 1 (Some (init_val (self s3))) None = (a, s4)"
    by (cases "adjust_batch_size s3 1 (Some (init_val (self s3))) None")
  have s4: "same_settings s3 s4"
    using adj same_settings_adjust_batch_size [of s3 1 "Some (init_val (self s3))" None] by simp
  have run: "\<not> fast_dev_run (trainer s)" "lightning_hasattr (pl_module s)"
    "train_source_is_module (trainer s0)"
    using assms by (auto simp: scale_batch_size_def s0_def Let_def split: if_splits)
  from assms run have body:
    "(case adjust_batch_size s3 1 (Some (init_val (self s3))) None of
        (Inl e, s4) \<Rightarrow> (Some e, s4)
      | (Inr (new_size, _), s4) \<Rightarrow>
          (case (case mode (self s4) of
                   Power \<Rightarrow> run_power_scaling env s4 new_size
                 | Binsearch \<Rightarrow> run_binary_scaling env s4 new_size) of
             (Inl e, s5) \<Rightarrow> (Some e, s5)
           | (Inr new_size', s5) \<Rightarrow> finish_search env s5 new_size'))
     = (Some (RuntimeError m), s')"
    unfolding scale_batch_size_def s0_def [symmetric] Let_def s1_def [symmetric] s3_def [symmetric]
    by (simp add: s0)
  have "same_settings s3 s'"
  proof (cases a)
    case (Inl e)
    then show ?thesis
      using body adj adjust_batch_size_raises [of s3 1 "Some (init_val (self s3))" None e s4]
      by auto
  next
    case (Inr p)
    obtain n0 c where p: "p = (n0, c)" by (cases p)
    define search where "search = (case mode (self s4) of
                   Power \<Rightarrow> run_power_scaling env s4 n0
                 | Binsearch \<Rightarrow> run_binary_scaling env s4 n0)"
    have fr: "same_settings s4 (snd search)"
      using same_settings_power_loop [of s4 env "nat (max_trials (self s4))" n0]
        same_settings_binary_loop [of s4 env n0 1 None 0]
      by (simp add: search_def run_power_scaling_def run_binary_scaling_def split: search_mode.splits)
    obtain b s5 where sr: "search = (b, s5)" by (cases search)
    have "b = Inl (RuntimeError m) \<and> s5 = s'"
      using body adj Inr p sr finish_search_raises [of env s5 _ "RuntimeError m" s' m]
      by (cases b) (auto simp: search_def [symmetric])
    then show ?thesis
      using fr sr s4 by (auto intro: same_settings_trans)
  qed
  then show ?thesis
    using s3 lim by (auto simp: same_settings_def)
qed

theorem runtime_error_skips_restoration_witness:
  "fst (scale_batch_size (example_env (always_raises ''device-side assert triggered'') 100)
          (example_state Binsearch VALIDATING 2 25 100))
     = Some (RuntimeError ''device-side assert triggered'')
   \<and> tmp_file (snd (scale_batch_size
          (example_env (always_raises ''device-side assert triggered'') 100)
          (example_state Binsearch VALIDATING 2 25 100))) \<noteq> None
   \<and> callbacks (trainer (snd (scale_batch_size
          (example_env (always_raises ''device-side assert triggered'') 100)
          (example_state Binsearch VALIDATING 2 25 100)))) = []
   \<and> limit_val_batches (trainer (snd (scale_batch_size
          (example_env (always_raises ''device-side assert triggered'') 100)
          (example_state Binsearch VALIDATING 2 25 100)))) = 1"
proof -
  have h: "fst (scale_batch_size (example_env (always_raises ''device-side assert triggered'') 100)
                 (example_state Binsearch VALIDATING 2 25 100))
             = Some (RuntimeError ''device-side assert triggered'')"
    by code_simp
  then have "scale_batch_size (example_env (always_raises ''device-side assert triggered'') 100)
                 (example_state Binsearch VALIDATING 2 25 100)
             = (Some (RuntimeError ''device-side assert triggered''),
                snd (scale_batch_size
                       (example_env (always_raises ''device-side assert triggered'') 100)
                       (example_state Binsearch VALIDATING 2 25 100)))"
    by (simp add: prod_eq_iff)
  from runtime_error_skips_restoration [OF this] h show ?thesis
    by (simp add: example_state_def example_trainer_def)
qed

section \<open>The counters after the search\<close>



section \<open>The power search and the size that failed\<close>

text \<open>
  C1 at the input of the specification: an initial value of 2, one step per
  trial, at most 25 trials, 100 items and a threshold of 33. The trials at 2, 4,
  8, 16 and 32 return and the trial at 64 runs out of memory; the handler then
  calls \<^verbatim>\<open>_adjust_batch_size(trainer)\<close> with the factor 1.0, which reads the attribute
  back and keeps it: the search ends with 64, the size whose trial has just
  failed, in the attribute and in \<^verbatim>\<open>optimal_batch_size\<close>, and not with 32.
\<close>

theorem power_search_returns_failed_size:
  "fst (scale_batch_size (example_env (threshold_oracle 33) 100)
          (example_state Power FITTING 2 25 100)) = None
   \<and> lightning_getattr (pl_module (snd (scale_batch_size (example_env (threshold_oracle 33) 100)
          (example_state Power FITTING 2 25 100)))) = Some 64
   \<and> optimal_batch_size (self (snd (scale_batch_size (example_env (threshold_oracle 33) 100)
          (example_state Power FITTING 2 25 100)))) = 64
   \<and> successes (snd (scale_batch_size (example_env (threshold_oracle 33) 100)
          (example_state Power FITTING 2 25 100))) = 5
   \<and> trials (snd (scale_batch_size (example_env (threshold_oracle 33) 100)
          (example_state Power FITTING 2 25 100))) = 6
   \<and> threshold_oracle 33 5 (Some 64) = Some ''CUDA out of memory''
   \<and> threshold_oracle 33 4 (Some 32) = None"
  by code_simp

section \<open>The binary search after a first trial that failed\<close>

lemma lightning_getattr_setattr:
  "lightning_setattr m v = Some m' \<Longrightarrow> lightning_getattr m' = Some v"
  by (auto simp: lightning_setattr_def lightning_getattr_def lightning_hasattr_def
       split: if_splits option.splits)

lemma adjust_batch_size_Inr:
  assumes "adjust_batch_size s f v d = (Inr (n, c), s')"
  shows "lightning_getattr (pl_module s') = Some n"
    and "\<exists>b dl. lightning_getattr (pl_module s) = Some b \<and> active_loader (trainer s) = Inr dl
           \<and> n = clamp_size (case v of Some x \<Rightarrow> x | None \<Rightarrow> b * f) dl \<and> c = (n \<noteq> b)"
  using assms
  by (auto simp: adjust_batch_size_def Let_def lightning_getattr_setattr
       split: option.splits sum.splits if_splits)

lemma adjust_batch_size_factor_le:
  "adjust_batch_size s f None d = (Inr (n, c), s') \<Longrightarrow>
     lightning_getattr (pl_module s) = Some b \<Longrightarrow> n \<le> b * f"
  using adjust_batch_size_Inr(2) [of s f None d n c s'] clamp_size_le by auto

lemma succeeded_adjust_below_high:
  assumes "succeeded_adjust s new_size (Some h) = Some (Inr (n, c), s')"
    and "lightning_getattr (pl_module s) = Some new_size" and "new_size < h"
  shows "n < h \<and> lightning_getattr (pl_module s') = Some n"
proof (cases "h = 0")
  case True
  then have a: "adjust_batch_size s 2 None (Some ''succeeded'') = (Inr (n, c), s')"
    using assms(1) by (simp add: succeeded_adjust_def)
  show ?thesis
    using adjust_batch_size_factor_le [OF a assms(2)] adjust_batch_size_Inr(1) [OF a] assms(3) True
    by simp
next
  case False
  then have a: "adjust_batch_size s 1 (Some ((h + new_size) div 2)) (Some ''succeeded'')
                  = (Inr (n, c), s')"
    using assms(1) by (simp add: succeeded_adjust_def split: if_splits)
  show ?thesis
    using adjust_batch_size_value_le [OF a] adjust_batch_size_Inr(1) [OF a] assms(3)
    by simp
qed

lemma binary_loop_below_high:
  assumes "lightning_getattr (pl_module s) = Some new_size"
    and "new_size < h" and "h \<le> bound" and "low < bound"
  shows "(\<forall>r. fst (fst (binary_loop env s new_size low (Some h) count)) = Inr r \<longrightarrow> r < bound)
       \<and> (\<exists>h'. snd (snd (binary_loop env s new_size low (Some h) count)) = Some h' \<and> h' \<le> bound)"
proof -
  define I where "I = (\<lambda>(s'::state) (n::int) (l::int) (hi::int option) (c::int).
      lightning_getattr (pl_module s') = Some n
      \<and> (\<exists>h'. hi = Some h' \<and> n < h' \<and> h' \<le> bound) \<and> l < bound)"
  define Q where "Q = (\<lambda>res :: ((exn + int) \<times> state) \<times> int \<times> int option.
      (\<forall>r. fst (fst res) = Inr r \<longrightarrow> r < bound)
      \<and> (\<exists>h'. snd (snd res) = Some h' \<and> h' \<le> bound))"
  have tl: "\<And>s' r s1. try_loop_run env s' = (r, s1) \<Longrightarrow> pl_module s1 = pl_module s'"
    using try_loop_run_frame(1) by (metis snd_conv)
  have "Q (binary_loop env s new_size low (Some h) count)"
  proof (rule binary_loop_rule [where I = I and Q = Q])
    show "I s new_size low (Some h) count"
      using assms by (simp add: I_def)
  next
    fix s new_size low high count s1 n' s2
    assume i: "I s new_size low high count" and t: "try_loop_run env s = (None, s1)"
      and a: "succeeded_adjust s1 new_size high = Some (Inr (n', False), s2)"
    from i obtain h' where h': "high = Some h'" "new_size < h'" "h' \<le> bound"
      by (auto simp: I_def)
    have "lightning_getattr (pl_module s1) = Some new_size"
      using i tl [OF t] by (simp add: I_def)
    from succeeded_adjust_below_high [OF a [unfolded h'(1)] this h'(2)]
    show "Q ((Inr n', s2), new_size, high)"
      using h' by (simp add: Q_def)
  next
    fix s new_size low high count s1 n' s2
    assume i: "I s new_size low high count" and t: "try_loop_run env s = (None, s1)"
      and a: "succeeded_adjust s1 new_size high = Some (Inr (n', True), s2)"
    from i obtain h' where h': "high = Some h'" "new_size < h'" "h' \<le> bound"
      by (auto simp: I_def)
    have "lightning_getattr (pl_module s1) = Some new_size"
      using i tl [OF t] by (simp add: I_def)
    from succeeded_adjust_below_high [OF a [unfolded h'(1)] this h'(2)]
    show "I (reset_dataloaders env s2) n' new_size high (count + 1)"
      using h' by (simp add: I_def reset_dataloaders_frame)
  next
    fix s new_size low high count s1 m n' c s2
    assume i: "I s new_size low high count"
      and a: "adjust_batch_size s1 1 (Some ((new_size + low) div 2)) (Some ''failed'')
                  = (Inr (n', c), s2)"
    have "n' \<le> (new_size + low) div 2"
      by (rule adjust_batch_size_value_le [OF a])
    then have "n' < bound"
      using i by (auto simp: I_def)
    then show "Q ((Inr n', if c then reset_dataloaders env s2 else s2), low, Some new_size)"
      using i by (auto simp: I_def Q_def)
  next
    fix s new_size low high count s1 m n' c s2
    assume i: "I s new_size low high count"
      and a: "adjust_batch_size s1 1 (Some ((new_size + low) div 2)) (Some ''failed'')
                  = (Inr (n', c), s2)"
      and far: "\<not> new_size - low \<le> 1"
    have "n' \<le> (new_size + low) div 2"
      by (rule adjust_batch_size_value_le [OF a])
    then have "n' < new_size"
      using far by linarith
    then show "I (if c then reset_dataloaders env s2 else s2) n' low (Some new_size) count"
      using i adjust_batch_size_Inr(1) [OF a] by (auto simp: I_def reset_dataloaders_frame)
  qed (auto simp: I_def Q_def)
  then show ?thesis
    by (simp add: Q_def)
qed

text \<open>
  C10, as stated, says that after a first trial that ran out of memory the search
  does not end with the initial value. With an initial value of 1 it does: \<^verbatim>\<open>high\<close>
  becomes 1, the middle of 1 and 1 is 1, and the loop is left with 1.
\<close>

theorem binsearch_first_trial_failed_counterexample:
  "threshold_oracle 0 0 (Some 1) = Some ''CUDA out of memory''
   \<and> fst (scale_batch_size (example_env (threshold_oracle 0) 100)
            (example_state Binsearch FITTING 1 25 100)) = None
   \<and> optimal_batch_size (self (snd (scale_batch_size (example_env (threshold_oracle 0) 100)
            (example_state Binsearch FITTING 1 25 100)))) = 1
   \<and> init_val (self (example_state Binsearch FITTING 1 25 100)) = 1"
  by code_simp

text \<open>
  C10, amended: \<^verbatim>\<open>low\<close> starts at 1, not at a size that was confirmed. If the first
  trial, at an initial value of at least 2, runs out of memory, then \<^verbatim>\<open>high\<close> becomes
  the initial value, the search goes on between 1 and the initial value, and
  whatever it returns is smaller than the initial value, with \<^verbatim>\<open>high\<close> at most the
  initial value when the loop is left. The value can be one that no trial
  confirmed: from 2 the search returns 1 after the one trial that failed.
\<close>

theorem binsearch_first_trial_failed:
  assumes oom: "loop_run env (trials s) (lightning_getattr (pl_module s)) = Some m"
      "is_oom_error env m"
    and keys: "d_loop_state_dict (dumped (self s)) \<noteq> None"
      "state_fn (trainer s) = FITTING \<longrightarrow> d_global_step (dumped (self s)) \<noteq> None"
    and attr: "lightning_getattr (pl_module s) = Some init"
    and init: "2 \<le> init"
    and returns: "binary_loop env s init 1 None 0 = ((Inr r, s'), low', high')"
  shows "r < init \<and> (\<exists>h. high' = Some h \<and> h \<le> init)"
proof -
  obtain s1 where t: "try_loop_run env s = (Some (RuntimeError m), s1)"
    using try_loop_run_raises(1) [OF oom(1) keys] by (cases "try_loop_run env s") simp
  obtain a s2 where
    adj: "adjust_batch_size s1 1 (Some ((init + 1) div 2)) (Some ''failed'') = (a, s2)"
    by (cases "adjust_batch_size s1 1 (Some ((init + 1) div 2)) (Some ''failed'')")
  show ?thesis
  proof (cases a)
    case (Inl e)
    then show ?thesis
      using returns t oom(2) adj by (simp add: binary_loop.simps [of env s])
  next
    case (Inr p)
    obtain n c where p: "p = (n, c)" by (cases p)
    note adj' = adj [unfolded Inr p]
    have n: "n < init"
      using adjust_batch_size_value_le [OF adj'] init by linarith
    define s3 where "s3 = (if c then reset_dataloaders env s2 else s2)"
    have s3: "lightning_getattr (pl_module s3) = Some n"
      using adjust_batch_size_Inr(1) [OF adj'] by (simp add: s3_def reset_dataloaders_frame)
    show ?thesis
    proof (cases "init - 1 \<le> 1")
      case True
      then show ?thesis
        using returns t oom(2) adj' n by (auto simp: binary_loop.simps [of env s] Let_def)
    next
      case False
      then have "binary_loop env s init 1 None 0 = binary_loop env s3 n 1 (Some init) 0"
        using t oom(2) adj' by (simp add: binary_loop.simps [of env s] Let_def s3_def)
      then have "binary_loop env s3 n 1 (Some init) 0 = ((Inr r, s'), low', high')"
        using returns by simp
      then have "fst (fst (binary_loop env s3 n 1 (Some init) 0)) = Inr r"
        "snd (snd (binary_loop env s3 n 1 (Some init) 0)) = high'"
        by simp_all
      then show ?thesis
        using binary_loop_below_high [OF s3 n order_refl, of 1 env 0] init by auto
    qed
  qed
qed

theorem binsearch_first_trial_failed_witness:
  "loop_run (example_env (threshold_oracle 0) 100)
     (trials (reset_params (dump_params (example_state Binsearch FITTING 2 25 100))))
     (lightning_getattr (pl_module
        ((reset_params (dump_params (example_state Binsearch FITTING 2 25 100)))
           \<lparr>pl_module := \<lparr>attr = Some 2, hparams = None\<rparr>\<rparr>)))
     = Some ''CUDA out of memory''
   \<and> fst (fst (binary_loop (example_env (threshold_oracle 0) 100)
        ((reset_params (dump_params (example_state Binsearch FITTING 2 25 100)))
           \<lparr>pl_module := \<lparr>attr = Some 2, hparams = None\<rparr>\<rparr>) 2 1 None 0)) = Inr 1
   \<and> successes (snd (fst (binary_loop (example_env (threshold_oracle 0) 100)
        ((reset_params (dump_params (example_state Binsearch FITTING 2 25 100)))
           \<lparr>pl_module := \<lparr>attr = Some 2, hparams = None\<rparr>\<rparr>) 2 1 None 0))) = 0
   \<and> (1::int) < 2"
proof -
  let ?env = "example_env (threshold_oracle 0) 100"
  let ?s = "(reset_params (dump_params (example_state Binsearch FITTING 2 25 100)))
              \<lparr>pl_module := \<lparr>attr = Some 2, hparams = None\<rparr>\<rparr>"
  have r: "fst (fst (binary_loop ?env ?s 2 1 None 0)) = Inr 1"
    "successes (snd (fst (binary_loop ?env ?s 2 1 None 0))) = 0"
    by code_simp+
  have eq: "binary_loop ?env ?s 2 1 None 0
              = ((Inr 1, snd (fst (binary_loop ?env ?s 2 1 None 0))),
                 fst (snd (binary_loop ?env ?s 2 1 None 0)),
                 snd (snd (binary_loop ?env ?s 2 1 None 0)))"
    using r(1) by (simp add: prod_eq_iff)
  have oom: "loop_run ?env (trials ?s) (lightning_getattr (pl_module ?s))
               = Some ''CUDA out of memory''"
    "is_oom_error ?env ''CUDA out of memory''"
    by (simp_all add: example_env_def threshold_oracle_def lightning_getattr_def)
  have keys: "d_loop_state_dict (dumped (self ?s)) \<noteq> None"
    "state_fn (trainer ?s) = FITTING \<longrightarrow> d_global_step (dumped (self ?s)) \<noteq> None"
    by (simp_all add: reset_params_def dump_params_def example_state_def example_trainer_def
          Let_def)
  have attr: "lightning_getattr (pl_module ?s) = Some 2"
    by (simp add: lightning_getattr_def)
  from binsearch_first_trial_failed [OF oom keys attr _ eq] r oom(1) show ?thesis
    by simp
qed

section \<open>Convergence of the binary search\<close>

text \<open>
  The loader that \<^verbatim>\<open>_reset_dataloaders\<close> leaves for the active mode, and what the
  convergence needs of a loader: no known length, or more items than the
  threshold, so that the guard never lowers a candidate to a size below it.
\<close>

definition derived_active_loader :: "env \<Rightarrow> trainer_fn \<Rightarrow> pl_module \<Rightarrow> exn + dataloader" where
  "derived_active_loader env fn m =
     (case fn of
        FITTING \<Rightarrow> Inr (derive_train env m)
      | VALIDATING \<Rightarrow> first_loader (derive_val env m)
      | TESTING \<Rightarrow> first_loader (derive_test env m)
      | PREDICTING \<Rightarrow> first_loader (derive_predict env m))"

definition roomy :: "int \<Rightarrow> exn + dataloader \<Rightarrow> bool" where
  "roomy T r =
     (case r of
        Inl _ \<Rightarrow> False
      | Inr dl \<Rightarrow> has_len_all_ranks dl \<longrightarrow> T < int (dataset_len dl))"

lemma active_loader_reset_dataloaders:
  "active_loader (trainer (reset_dataloaders env s))
     = derived_active_loader env (state_fn (trainer s)) (pl_module s)"
  "state_fn (trainer (reset_dataloaders env s)) = state_fn (trainer s)"
  by (cases "state_fn (trainer s)";
      simp add: reset_dataloaders_def active_loader_def derived_active_loader_def Let_def)+

lemma active_loader_try_loop_run:
  "active_loader (trainer (snd (try_loop_run env s))) = active_loader (trainer s)"
  "state_fn (trainer (snd (try_loop_run env s))) = state_fn (trainer s)"
  by (cases "state_fn (trainer s)";
      simp add: try_loop_run_def Let_def load_state_dict_def run_active_loop_def
        active_loader_def split: option.splits)+

lemma try_loop_run_outcome:
  assumes "d_loop_state_dict (dumped (self s)) \<noteq> None"
    and "state_fn (trainer s) = FITTING \<longrightarrow> d_global_step (dumped (self s)) \<noteq> None"
  shows "fst (try_loop_run env s)
           = map_option RuntimeError (loop_run env (trials s) (lightning_getattr (pl_module s)))"
  using assms by (auto simp: try_loop_run_def Let_def split: option.splits)

lemma adjust_batch_size_succeeds:
  assumes "lightning_getattr (pl_module s) = Some b" and "active_loader (trainer s) = Inr dl"
  shows "\<exists>s'. adjust_batch_size s f v d
                = (Inr (clamp_size (case v of Some x \<Rightarrow> x | None \<Rightarrow> b * f) dl,
                        clamp_size (case v of Some x \<Rightarrow> x | None \<Rightarrow> b * f) dl \<noteq> b), s')"
proof -
  have "lightning_setattr (pl_module s) x \<noteq> None" for x
    using assms(1)
    by (auto simp: lightning_setattr_def lightning_getattr_def lightning_hasattr_def
         split: option.splits)
  then show ?thesis
    using assms
    by (cases d; cases v)
       (auto simp: adjust_batch_size_def Let_def split: option.splits)
qed

lemma clamp_size_roomy:
  assumes "roomy T (Inr dl)"
  shows "x \<le> T \<Longrightarrow> clamp_size x dl = x"
    and "T < x \<Longrightarrow> T < clamp_size x dl"
  using assms by (auto simp: roomy_def clamp_size_def is_valid_batch_size_def)

lemma binary_loop_converges:
  assumes fails: "\<And>n b. T < b \<Longrightarrow> \<exists>m. loop_run env n (Some b) = Some m \<and> is_oom_error env m"
    and passes: "\<And>n b. b \<le> T \<Longrightarrow> loop_run env n (Some b) = None"
    and keys: "d_loop_state_dict (dumped (self s)) \<noteq> None"
      "state_fn (trainer s) = FITTING \<longrightarrow> d_global_step (dumped (self s)) \<noteq> None"
    and attr: "lightning_getattr (pl_module s) = Some init"
    and init: "1 \<le> init" "init \<le> T"
    and budget: "T \<le> max_trials (self s)"
    and now: "roomy T (active_loader (trainer s))"
    and later: "\<And>m. roomy T (derived_active_loader env (state_fn (trainer s)) m)"
  shows "fst (fst (binary_loop env s init 1 None 0)) = Inr T
       \<and> snd (binary_loop env s init 1 None 0) = (T, Some (T + 1))
       \<and> lightning_getattr (pl_module (snd (fst (binary_loop env s init 1 None 0)))) = Some T"
proof -
  define R where "R = (\<lambda>(s'::state) (n::int).
      lightning_getattr (pl_module s') = Some n \<and> self s' = self s
      \<and> state_fn (trainer s') = state_fn (trainer s) \<and> roomy T (active_loader (trainer s')))"
  define I where "I = (\<lambda>(s'::state) (n::int) (l::int) (hi::int option) (c::int).
      R s' n \<and> 0 \<le> c \<and> 1 \<le> l \<and> l \<le> T \<and> c \<le> l \<and> c < n
      \<and> (case hi of None \<Rightarrow> l \<le> n | Some h \<Rightarrow> T < h \<and> l < n \<and> n < h))"
  define Q where "Q = (\<lambda>res :: ((exn + int) \<times> state) \<times> int \<times> int option.
      fst (fst res) = Inr T \<and> snd res = (T, Some (T + 1))
      \<and> lightning_getattr (pl_module (snd (fst res))) = Some T)"
  have head: "R s1 n \<and> (r = None \<longrightarrow> n \<le> T)
              \<and> (\<forall>e. r = Some e \<longrightarrow> T < n \<and> (\<exists>m. e = RuntimeError m \<and> is_oom_error env m))"
    if "R s' n" and "try_loop_run env s' = (r, s1)" for s' n r s1
  proof -
    have k: "d_loop_state_dict (dumped (self s')) \<noteq> None"
      "state_fn (trainer s') = FITTING \<longrightarrow> d_global_step (dumped (self s')) \<noteq> None"
      using that(1) keys by (simp_all add: R_def)
    have r: "r = map_option RuntimeError (loop_run env (trials s') (Some n))"
      using try_loop_run_outcome [OF k, of env] that by (simp add: R_def)
    have "R s1 n"
      using that try_loop_run_frame(1,2) [of env s'] active_loader_try_loop_run [of env s']
      by (simp add: R_def)
    moreover have "r = None \<longrightarrow> n \<le> T"
      using r fails [of n "trials s'"] by (cases "n \<le> T") auto
    moreover have "\<forall>e. r = Some e \<longrightarrow> T < n \<and> (\<exists>m. e = RuntimeError m \<and> is_oom_error env m)"
      using r fails [of n "trials s'"] passes [of n "trials s'"] by (cases "n \<le> T") auto
    ultimately show ?thesis by simp
  qed
  have adjust: "\<exists>n'. a = Inr (n', n' \<noteq> b) \<and> n' \<le> cand \<and> (cand \<le> T \<longrightarrow> n' = cand)
                  \<and> (T < cand \<longrightarrow> T < n') \<and> R s2 n'
                  \<and> active_loader (trainer s2) = active_loader (trainer s1)"
    if "R s1 b" and "adjust_batch_size s1 f v d = (a, s2)"
      and "cand = (case v of Some x \<Rightarrow> x | None \<Rightarrow> b * f)" for s1 b f v d a s2 cand
  proof -
    have "roomy T (active_loader (trainer s1))"
      using that(1) by (simp add: R_def)
    then obtain dl where dl: "active_loader (trainer s1) = Inr dl" "roomy T (Inr dl)"
      by (cases "active_loader (trainer s1)") (simp_all add: roomy_def)
    have b: "lightning_getattr (pl_module s1) = Some b"
      using that(1) by (simp add: R_def)
    from adjust_batch_size_succeeds [OF b dl(1), of f v d] that(2,3)
    have a: "a = Inr (clamp_size cand dl, clamp_size cand dl \<noteq> b)"
      by auto
    have "R s2 (clamp_size cand dl)"
      using that(1,2) a adjust_batch_size_Inr(1) [of s1 f v d "clamp_size cand dl" _ s2]
        adjust_batch_size_frame(1) [of s1 f v d] self_adjust_batch_size [of s1 f v d]
      by (simp add: R_def)
    moreover have "active_loader (trainer s2) = active_loader (trainer s1)"
      using that(2) adjust_batch_size_frame(1) [of s1 f v d] by simp
    ultimately show ?thesis
      using a clamp_size_le [of cand dl] clamp_size_roomy [OF dl(2), of cand] by auto
  qed
  have reset: "R (reset_dataloaders env s2) n" if "R s2 n" for s2 n
    using that later active_loader_reset_dataloaders [of env s2]
    by (simp add: R_def reset_dataloaders_frame self_reset_dataloaders)
  have "Q (binary_loop env s init 1 None 0)"
  proof (rule binary_loop_rule [where I = I and Q = Q])
    show "I s init 1 None 0"
      using attr init now by (simp add: I_def R_def)
  next
    fix s' n low high count s1
    assume i: "I s' n low high count" and t: "try_loop_run env s' = (None, s1)"
      and o: "count + 1 > max_trials (self s1)"
    have "R s1 n \<and> n \<le> T"
      using head [OF _ t] i by (simp add: I_def)
    then show "Q ((Inr n, s1), low, high)"
      using i o budget by (simp add: I_def R_def)
  next
    fix s' n low high count s1
    assume i: "I s' n low high count" and t: "try_loop_run env s' = (None, s1)"
      and c: "succeeded_adjust s1 n high = None"
    have h: "R s1 n \<and> n \<le> T"
      using head [OF _ t] i by (simp add: I_def)
    from c obtain hi where hi: "high = Some hi" "hi - n \<le> 1"
      by (auto simp: succeeded_adjust_def split: option.splits if_splits)
    then have "n = T \<and> hi = T + 1"
      using i h by (simp add: I_def)
    then show "Q ((Inr n, s1), n, high)"
      using h hi by (simp add: Q_def R_def)
  next
    fix s' n low high count s1 e s2
    assume i: "I s' n low high count" and t: "try_loop_run env s' = (None, s1)"
      and c: "succeeded_adjust s1 n high = Some (Inl e, s2)"
    have h: "R s1 n"
      using head [OF _ t] i by (simp add: I_def)
    from c obtain f v where "adjust_batch_size s1 f v (Some ''succeeded'') = (Inl e, s2)"
      by (auto simp: succeeded_adjust_def split: option.splits if_splits)
    from adjust [OF h this refl] show "Q ((Inl e, s2), n, high)"
      by simp
  next
    fix s' n low high count s1 n' s2
    assume i: "I s' n low high count" and t: "try_loop_run env s' = (None, s1)"
      and c: "succeeded_adjust s1 n high = Some (Inr (n', False), s2)"
    have h: "R s1 n" "n \<le> T"
      using head [OF _ t] i by (simp_all add: I_def)
    have n: "1 \<le> n"
      using i by (simp add: I_def)
    show "Q ((Inr n', s2), n, high)"
    proof (cases high)
      case None
      then have "adjust_batch_size s1 2 None (Some ''succeeded'') = (Inr (n', False), s2)"
        using c by (simp add: succeeded_adjust_def)
      from adjust [OF h(1) this refl] h(2) n show ?thesis
        by (cases "n * 2 \<le> T") auto
    next
      case (Some hi)
      then have far: "\<not> hi - n \<le> 1" and
        a: "adjust_batch_size s1 1 (Some ((hi + n) div 2)) (Some ''succeeded'')
              = (Inr (n', False), s2)"
        using c i by (auto simp: succeeded_adjust_def I_def split: if_splits)
      from adjust [OF h(1) a refl] h(2) far show ?thesis
        by (cases "(hi + n) div 2 \<le> T") auto
    qed
  next
    fix s' n low high count s1 n' s2
    assume i: "I s' n low high count" and t: "try_loop_run env s' = (None, s1)"
      and b: "\<not> count + 1 > max_trials (self s1)"
      and c: "succeeded_adjust s1 n high = Some (Inr (n', True), s2)"
    have h: "R s1 n" "n \<le> T"
      using head [OF _ t] i by (simp_all add: I_def)
    have n: "1 \<le> n" "0 \<le> count" "count < n"
      using i by (simp_all add: I_def)
    show "I (reset_dataloaders env s2) n' n high (count + 1)"
    proof (cases high)
      case None
      then have "adjust_batch_size s1 2 None (Some ''succeeded'') = (Inr (n', True), s2)"
        using c by (simp add: succeeded_adjust_def)
      from adjust [OF h(1) this refl] have "R s2 n'" "n < n'"
        using h(2) n by (cases "n * 2 \<le> T"; auto)+
      then show ?thesis
        using reset [of s2 n'] None h(2) n by (simp add: I_def)
    next
      case (Some hi)
      then have far: "\<not> hi - n \<le> 1" and hi: "T < hi" and
        a: "adjust_batch_size s1 1 (Some ((hi + n) div 2)) (Some ''succeeded'')
              = (Inr (n', True), s2)"
        using c i by (auto simp: succeeded_adjust_def I_def split: if_splits)
      from adjust [OF h(1) a refl] have "R s2 n'" "n < n'" "n' < hi"
        using h(2) far by (cases "(hi + n) div 2 \<le> T"; auto)+
      then show ?thesis
        using reset [of s2 n'] Some h(2) n hi by (simp add: I_def)
    qed
  next
    fix s' n low high count s1 e
    assume i: "I s' n low high count" and t: "try_loop_run env s' = (Some e, s1)"
      and o: "\<forall>m. e = RuntimeError m \<longrightarrow> \<not> is_oom_error env m"
    from head [OF _ t] i o show "Q ((Inl e, s1), low, high)"
      by (auto simp: I_def)
  next
    fix s' n low high count s1 m e s2
    assume i: "I s' n low high count" and t: "try_loop_run env s' = (Some (RuntimeError m), s1)"
      and a: "adjust_batch_size s1 1 (Some ((n + low) div 2)) (Some ''failed'') = (Inl e, s2)"
    have h: "R s1 n"
      using head [OF _ t] i by (simp add: I_def)
    from adjust [OF h a refl] show "Q ((Inl e, s2), low, Some n)"
      by simp
  next
    fix s' n low high count s1 m n' c s2
    assume i: "I s' n low high count" and t: "try_loop_run env s' = (Some (RuntimeError m), s1)"
      and a: "adjust_batch_size s1 1 (Some ((n + low) div 2)) (Some ''failed'')
                = (Inr (n', c), s2)"
      and near: "n - low \<le> 1"
    have h: "R s1 n" "T < n"
      using head [OF _ t] i by (simp_all add: I_def)
    have l: "low \<le> T"
      using i by (simp add: I_def)
    then have eq: "low = T" "n = T + 1" "(n + low) div 2 = T"
      using near h(2) by simp_all
    from adjust [OF h(1) a refl] have "n' = T" "R s2 n'"
      using eq by auto
    then show "Q ((Inr n', if c then reset_dataloaders env s2 else s2), low, Some n)"
      using eq reset [of s2 n'] by (simp add: Q_def R_def)
  next
    fix s' n low high count s1 m n' c s2
    assume i: "I s' n low high count" and t: "try_loop_run env s' = (Some (RuntimeError m), s1)"
      and a: "adjust_batch_size s1 1 (Some ((n + low) div 2)) (Some ''failed'')
                = (Inr (n', c), s2)"
      and far: "\<not> n - low \<le> 1"
    have h: "R s1 n" "T < n"
      using head [OF _ t] i by (simp_all add: I_def)
    have l: "low \<le> T" "1 \<le> low" "0 \<le> count" "count \<le> low"
      using i by (simp_all add: I_def)
    from adjust [OF h(1) a refl] have "R s2 n'" "low < n'" "n' < n"
      using l(1) far by (cases "(n + low) div 2 \<le> T"; auto)+
    then show "I (if c then reset_dataloaders env s2 else s2) n' low (Some n) count"
      using reset [of s2 n'] l h(2) by (simp add: I_def)
  qed
  then show ?thesis
    by (simp add: Q_def)
qed

text \<open>
  C2, as stated, holds for every threshold from the initial value on. The guard
  stops the growth at the data set size: on the 100 items of the end-to-end
  example with a threshold of 150 the sizes 2 to 64 succeed, 128 is cut back to
  100, which succeeds, doubling 100 is cut back to 100 again, and the search ends
  with 100, below 149, without ever setting \<^verbatim>\<open>high\<close>.
\<close>

theorem binsearch_small_dataset_counterexample:
  "(2::int) \<le> 150
   \<and> fst (scale_batch_size (example_env (threshold_oracle 150) 100)
          (example_state Binsearch FITTING 2 25 100)) = None
   \<and> optimal_batch_size (self (snd (scale_batch_size (example_env (threshold_oracle 150) 100)
          (example_state Binsearch FITTING 2 25 100)))) = 100
   \<and> \<not> (150 - 1 \<le> optimal_batch_size (self (snd (scale_batch_size
          (example_env (threshold_oracle 150) 100) (example_state Binsearch FITTING 2 25 100)))))
   \<and> snd (binary_loop (example_env (threshold_oracle 150) 100)
          ((reset_params (dump_params (example_state Binsearch FITTING 2 25 100)))
             \<lparr>pl_module := \<lparr>attr = Some 2, hparams = None\<rparr>\<rparr>) 2 1 None 0) = (100, None)"
  by code_simp

text \<open>
  C2, amended: let the trials fail with memory exhaustion exactly above a threshold
  \<open>T\<close> that is at least the initial value (itself at least 1), let the budget not
  run out (\<^verbatim>\<open>max_trials\<close> of at least \<open>T\<close> is enough) and let every loader of the
  active mode have an unknown length or more than \<open>T\<close> items. Then the binary
  search returns \<open>T\<close> itself, hence a value that is at most \<open>T\<close> and at least
  \<open>T - 1\<close>, leaves it in the attribute, and ends with \<^verbatim>\<open>low\<close> at \<open>T\<close> and \<^verbatim>\<open>high\<close> at
  \<open>T + 1\<close>.
\<close>

theorem binsearch_converges:
  assumes fails: "\<And>n b. T < b \<Longrightarrow> \<exists>m. loop_run env n (Some b) = Some m \<and> is_oom_error env m"
    and passes: "\<And>n b. b \<le> T \<Longrightarrow> loop_run env n (Some b) = None"
    and keys: "d_loop_state_dict (dumped (self s)) \<noteq> None"
      "state_fn (trainer s) = FITTING \<longrightarrow> d_global_step (dumped (self s)) \<noteq> None"
    and attr: "lightning_getattr (pl_module s) = Some init"
    and init: "1 \<le> init" "init \<le> T"
    and budget: "T \<le> max_trials (self s)"
    and now: "roomy T (active_loader (trainer s))"
    and later: "\<And>m. roomy T (derived_active_loader env (state_fn (trainer s)) m)"
  shows "fst (run_binary_scaling env s init) = Inr T
       \<and> lightning_getattr (pl_module (snd (run_binary_scaling env s init))) = Some T
       \<and> snd (binary_loop env s init 1 None 0) = (T, Some (T + 1))"
  using binary_loop_converges [OF assms] by (simp add: run_binary_scaling_def)

theorem binsearch_converges_witness:
  "fst (run_binary_scaling (example_env (threshold_oracle 33) 100)
          ((reset_params (dump_params (example_state Binsearch FITTING 2 40 100)))
             \<lparr>pl_module := \<lparr>attr = Some 2, hparams = None\<rparr>\<rparr>) 2) = Inr 33
   \<and> snd (binary_loop (example_env (threshold_oracle 33) 100)
          ((reset_params (dump_params (example_state Binsearch FITTING 2 40 100)))
             \<lparr>pl_module := \<lparr>attr = Some 2, hparams = None\<rparr>\<rparr>) 2 1 None 0) = (33, Some 34)
   \<and> optimal_batch_size (self (snd (scale_batch_size (example_env (threshold_oracle 33) 100)
          (example_state Binsearch FITTING 2 25 100)))) = 33"
proof -
  let ?env = "example_env (threshold_oracle 33) 100"
  let ?s = "(reset_params (dump_params (example_state Binsearch FITTING 2 40 100)))
              \<lparr>pl_module := \<lparr>attr = Some 2, hparams = None\<rparr>\<rparr>"
  have fails: "\<And>n b. 33 < b \<Longrightarrow> \<exists>m. loop_run ?env n (Some b) = Some m \<and> is_oom_error ?env m"
    by (simp add: example_env_def threshold_oracle_def)
  have passes: "\<And>n b. b \<le> 33 \<Longrightarrow> loop_run ?env n (Some b) = None"
    by (simp add: example_env_def threshold_oracle_def)
  have keys: "d_loop_state_dict (dumped (self ?s)) \<noteq> None"
    "state_fn (trainer ?s) = FITTING \<longrightarrow> d_global_step (dumped (self ?s)) \<noteq> None"
    by (simp_all add: reset_params_def dump_params_def example_state_def example_trainer_def
          Let_def)
  have attr: "lightning_getattr (pl_module ?s) = Some 2"
    by (simp add: lightning_getattr_def)
  have budget: "33 \<le> max_trials (self ?s)"
    by (simp add: reset_params_def dump_params_def example_state_def Let_def)
  have fn: "state_fn (trainer ?s) = FITTING"
    by (simp add: reset_params_def dump_params_def example_state_def example_trainer_def Let_def)
  have now: "roomy 33 (active_loader (trainer ?s))"
    by (simp add: roomy_def active_loader_def reset_params_def dump_params_def
          example_state_def example_trainer_def derived_loader_def Let_def)
  have later: "\<And>m. roomy 33 (derived_active_loader ?env (state_fn (trainer ?s)) m)"
    unfolding fn
    by (simp add: roomy_def derived_active_loader_def example_env_def derived_loader_def)
  have e2e: "optimal_batch_size (self (snd (scale_batch_size ?env
               (example_state Binsearch FITTING 2 25 100)))) = 33"
    by code_simp
  from binsearch_converges [of 33 ?env ?s 2, OF fails passes keys attr _ _ budget now later] e2e
  show ?thesis
    by simp
qed

end
